theory Spec2Isabelle
  imports Complex_Main "HOL-Library.Sublist" "HOL-Library.Multiset"
begin

section \<open>Python text primitives\<close>

text \<open>
  Python strings are sequences of code points. The embedding uses \<^typ>\<open>string\<close>, so a
  character is a code point below 256 (the ASCII and Latin-1 blocks), and \<^const>\<open>length\<close>
  is Python's \<^verbatim>\<open>len\<close>. The character classes below are those of CPython for
  these code points (\<^verbatim>\<open>str.isspace\<close>, \<^verbatim>\<open>str.lower\<close>, \<^verbatim>\<open>str.isupper\<close>,
  \<^verbatim>\<open>str.islower\<close> and the classes \<^verbatim>\<open>\s\<close>, \<^verbatim>\<open>\d\<close>, \<^verbatim>\<open>\w\<close> of \<^verbatim>\<open>re\<close>).
  The bullet U+2022 and the euro sign U+20AC, which occur in three literals of the source,
  lie outside this range: text of the model never contains them.
  Python floats are modelled as exact reals.
\<close>

abbreviation nl :: char where "nl \<equiv> CHR 0x0A"

definition code :: "char \<Rightarrow> int" where
  "code c = of_char c"

definition is_space :: "char \<Rightarrow> bool" where
  "is_space c = ((9 \<le> code c \<and> code c \<le> 13) \<or> (28 \<le> code c \<and> code c \<le> 32)
                 \<or> code c = 133 \<or> code c = 160)"

definition is_digit :: "char \<Rightarrow> bool" where
  "is_digit c = (48 \<le> code c \<and> code c \<le> 57)"

definition is_upper_c :: "char \<Rightarrow> bool" where
  "is_upper_c c = ((65 \<le> code c \<and> code c \<le> 90) \<or> (192 \<le> code c \<and> code c \<le> 214)
                   \<or> (216 \<le> code c \<and> code c \<le> 222))"

definition is_lower_c :: "char \<Rightarrow> bool" where
  "is_lower_c c = ((97 \<le> code c \<and> code c \<le> 122) \<or> code c = 170 \<or> code c = 181
                   \<or> code c = 186 \<or> (223 \<le> code c \<and> code c \<le> 246)
                   \<or> (248 \<le> code c \<and> code c \<le> 255))"

definition is_word_c :: "char \<Rightarrow> bool" where
  "is_word_c c = (is_digit c \<or> is_upper_c c \<or> is_lower_c c \<or> code c = 95
                  \<or> code c = 178 \<or> code c = 179 \<or> code c = 185
                  \<or> (188 \<le> code c \<and> code c \<le> 190))"

definition lower_c :: "char \<Rightarrow> char" where
  "lower_c c = (if is_upper_c c then char_of (code c + 32) else c)"

definition lower :: "string \<Rightarrow> string" where
  "lower s = map lower_c s"

definition strip :: "string \<Rightarrow> string" where
  "strip s = rev (dropWhile is_space (rev (dropWhile is_space s)))"

text \<open>\<^verbatim>\<open>sub in s\<close> on strings: \<open>sub\<close> occurs in \<open>s\<close> as a contiguous block.\<close>

fun str_in :: "string \<Rightarrow> string \<Rightarrow> bool" where
  "str_in sub [] = (sub = [])"
| "str_in sub (c # cs) = (prefix sub (c # cs) \<or> str_in sub cs)"

text \<open>\<^verbatim>\<open>any(w in s for w in ws)\<close>.\<close>

definition any_in :: "string list \<Rightarrow> string \<Rightarrow> bool" where
  "any_in ws s = list_ex (\<lambda>w. str_in w s) ws"

text \<open>\<^verbatim>\<open>s.split(sep)\<close> for a non-empty separator: empty pieces are kept.\<close>

fun split_str :: "string \<Rightarrow> string \<Rightarrow> string list" where
  "split_str sep [] = [[]]"
| "split_str sep (c # cs) =
     (if sep \<noteq> [] \<and> prefix sep (c # cs)
      then [] # split_str sep (drop (length sep) (c # cs))
      else (case split_str sep cs of
              w # ws \<Rightarrow> (c # w) # ws
            | [] \<Rightarrow> [[c]]))"

text \<open>\<^verbatim>\<open>s.split()\<close>: the maximal runs of non-whitespace characters.\<close>

fun split_ws_from :: "string \<Rightarrow> string \<Rightarrow> string list" where
  "split_ws_from w [] = (if w = [] then [] else [w])"
| "split_ws_from w (c # cs) =
     (if is_space c then (if w = [] then split_ws_from [] cs else w # split_ws_from [] cs)
      else split_ws_from (w @ [c]) cs)"

definition split_ws :: "string \<Rightarrow> string list" where
  "split_ws s = split_ws_from [] s"

fun join :: "string \<Rightarrow> string list \<Rightarrow> string" where
  "join sep [] = []"
| "join sep [x] = x"
| "join sep (x # y # ys) = x @ sep @ join sep (y # ys)"

text \<open>\<^verbatim>\<open>s.isupper()\<close>: no lowercase character and at least one uppercase one.\<close>

definition isupper :: "string \<Rightarrow> bool" where
  "isupper s = (\<not> list_ex is_lower_c s \<and> list_ex is_upper_c s)"

text \<open>\<^verbatim>\<open>s.istitle()\<close>: CPython's scan with the flags \<^verbatim>\<open>previous_is_cased\<close> and
  \<^verbatim>\<open>cased\<close>; an uppercase character may only follow an uncased one, a lowercase
  character only a cased one, and some cased character must occur.\<close>

fun istitle_from :: "bool \<Rightarrow> bool \<Rightarrow> string \<Rightarrow> bool" where
  "istitle_from previous_is_cased cased [] = cased"
| "istitle_from previous_is_cased cased (c # cs) =
     (if is_upper_c c then (if previous_is_cased then False else istitle_from True True cs)
      else if is_lower_c c then (if \<not> previous_is_cased then False else istitle_from True True cs)
      else istitle_from False cased cs)"

definition istitle :: "string \<Rightarrow> bool" where
  "istitle s = istitle_from False False s"

definition endswith :: "string \<Rightarrow> string \<Rightarrow> bool" where
  "endswith s suf = suffix suf s"

text \<open>\<^verbatim>\<open>int(s)\<close> on a string of ASCII digits, and \<^verbatim>\<open>str(n)\<close> on a number.\<close>

definition int_of_digits :: "string \<Rightarrow> nat" where
  "int_of_digits s = foldl (\<lambda>n c. 10 * n + nat (code c - 48)) 0 s"

fun str_of_nat :: "nat \<Rightarrow> string" where
  "str_of_nat n = (if n < 10 then [char_of (48 + int n)]
                   else str_of_nat (n div 10) @ [char_of (48 + int (n mod 10))])"

definition str_of_int :: "int \<Rightarrow> string" where
  "str_of_int i = (if i < 0 then CHR ''-'' # str_of_nat (nat (- i)) else str_of_nat (nat i))"

section \<open>Regular expressions of the source\<close>

text \<open>
  Every pattern of the source is a sequence of items, an item being a character class
  under a quantifier, an alternative of literal words, or \<^verbatim>\<open>$\<close>. The matcher below is
  the backtracking matcher of \<^verbatim>\<open>re\<close> on such sequences: a quantifier first takes as
  many characters as it can and gives them back one at a time, alternatives are tried
  from left to right. The result holds the text each item matched (the groups are read
  from it) and the rest of the input. The anchor \<^verbatim>\<open>^\<close> is left out of the item
  lists: the source uses it only under \<^verbatim>\<open>re.match\<close>, which matches at position 0.
\<close>

datatype atom = ARange char char | AChar char | ASpace | ADigit

fun in_atom :: "char \<Rightarrow> atom \<Rightarrow> bool" where
  "in_atom x (ARange lo hi) = (code lo \<le> code x \<and> code x \<le> code hi)"
| "in_atom x (AChar c) = (x = c)"
| "in_atom x ASpace = is_space x"
| "in_atom x ADigit = is_digit x"

definition in_cls :: "char \<Rightarrow> atom list \<Rightarrow> bool" where
  "in_cls x cls = list_ex (in_atom x) cls"

datatype item =
    One "atom list"
  | Opt "atom list"
  | Star "atom list"
  | Plus "atom list"
  | AtLeast nat "atom list"
  | Rep nat nat "atom list"
  | Alt "string list"
  | Eos

type_synonym rx_result = "(string list \<times> string) option"

definition add_piece :: "string \<Rightarrow> rx_result \<Rightarrow> rx_result" where
  "add_piece p r = (case r of Some (ps, t) \<Rightarrow> Some (p # ps, t) | None \<Rightarrow> None)"

definition grow :: "char \<Rightarrow> rx_result \<Rightarrow> rx_result" where
  "grow x r = (case r of Some (p # ps, t) \<Rightarrow> Some ((x # p) # ps, t) | _ \<Rightarrow> None)"

definition or_else :: "rx_result \<Rightarrow> rx_result \<Rightarrow> rx_result" where
  "or_else a b = (case a of Some m \<Rightarrow> Some m | None \<Rightarrow> b)"

fun first_some :: "rx_result list \<Rightarrow> rx_result" where
  "first_some [] = None"
| "first_some (a # as) = (case a of Some m \<Rightarrow> Some m | None \<Rightarrow> first_some as)"

function rx_match :: "item list \<Rightarrow> string \<Rightarrow> rx_result" where
  "rx_match [] s = Some ([], s)"
| "rx_match (One c # r) [] = None"
| "rx_match (One c # r) (x # xs) =
     (if in_cls x c then add_piece [x] (rx_match r xs) else None)"
| "rx_match (Opt c # r) [] = add_piece [] (rx_match r [])"
| "rx_match (Opt c # r) (x # xs) =
     (if in_cls x c
      then or_else (add_piece [x] (rx_match r xs)) (add_piece [] (rx_match r (x # xs)))
      else add_piece [] (rx_match r (x # xs)))"
| "rx_match (Star c # r) [] = add_piece [] (rx_match r [])"
| "rx_match (Star c # r) (x # xs) =
     (if in_cls x c
      then or_else (grow x (rx_match (Star c # r) xs)) (add_piece [] (rx_match r (x # xs)))
      else add_piece [] (rx_match r (x # xs)))"
| "rx_match (Plus c # r) [] = None"
| "rx_match (Plus c # r) (x # xs) =
     (if in_cls x c then grow x (rx_match (Star c # r) xs) else None)"
| "rx_match (AtLeast 0 c # r) [] = add_piece [] (rx_match r [])"
| "rx_match (AtLeast 0 c # r) (x # xs) =
     (if in_cls x c
      then or_else (grow x (rx_match (AtLeast 0 c # r) xs)) (add_piece [] (rx_match r (x # xs)))
      else add_piece [] (rx_match r (x # xs)))"
| "rx_match (AtLeast (Suc m) c # r) [] = None"
| "rx_match (AtLeast (Suc m) c # r) (x # xs) =
     (if in_cls x c then grow x (rx_match (AtLeast m c # r) xs) else None)"
| "rx_match (Rep 0 n c # r) [] = add_piece [] (rx_match r [])"
| "rx_match (Rep 0 n c # r) (x # xs) =
     (if in_cls x c \<and> 0 < n
      then or_else (grow x (rx_match (Rep 0 (n - 1) c # r) xs))
                   (add_piece [] (rx_match r (x # xs)))
      else add_piece [] (rx_match r (x # xs)))"
| "rx_match (Rep (Suc m) n c # r) [] = None"
| "rx_match (Rep (Suc m) n c # r) (x # xs) =
     (if in_cls x c \<and> 0 < n then grow x (rx_match (Rep m (n - 1) c # r) xs) else None)"
| "rx_match (Alt ws # r) s =
     first_some (map (\<lambda>w. if prefix w s then add_piece w (rx_match r (drop (length w) s))
                           else None) ws)"
| "rx_match (Eos # r) s = (if s = [] \<or> s = [nl] then add_piece [] (rx_match r s) else None)"
  by pat_completeness auto
termination
  by (relation "measures [\<lambda>(p, s). length s, \<lambda>(p, s). length p]") auto

text \<open>\<^verbatim>\<open>re.match(p, s)\<close> read as a truth value.\<close>

definition re_match :: "item list \<Rightarrow> string \<Rightarrow> bool" where
  "re_match p s = (rx_match p s \<noteq> None)"

text \<open>\<^verbatim>\<open>re.search(p, s)\<close>: the match at the leftmost position that has one, as the text
  before the match, the pieces and the text after it.\<close>

fun re_search :: "item list \<Rightarrow> string \<Rightarrow> (string \<times> string list \<times> string) option" where
  "re_search p [] = (case rx_match p [] of Some (ps, t) \<Rightarrow> Some ([], ps, t) | None \<Rightarrow> None)"
| "re_search p (x # xs) =
     (case rx_match p (x # xs) of
        Some (ps, t) \<Rightarrow> Some ([], ps, t)
      | None \<Rightarrow> (case re_search p xs of
                   Some (pre, ps, t) \<Rightarrow> Some (x # pre, ps, t)
                 | None \<Rightarrow> None))"

text \<open>\<^verbatim>\<open>re.split(p, s)\<close> and \<^verbatim>\<open>re.sub(p, repl, s)\<close> for a pattern without groups
  whose matches are never empty (every pattern the source splits or substitutes on
  starts with an item that takes a character): the search restarts after each match.
  The test on the lengths is what makes the recursion well-founded; it holds at every
  match of such a pattern.\<close>

function re_split :: "item list \<Rightarrow> string \<Rightarrow> string list" where
  "re_split p s =
     (case re_search p s of
        None \<Rightarrow> [s]
      | Some (pre, ps, t) \<Rightarrow> if length t < length s then pre # re_split p t else [s])"
  by pat_completeness auto
termination
  by (relation "measure (\<lambda>(p, s). length s)") auto

function re_sub :: "item list \<Rightarrow> string \<Rightarrow> string \<Rightarrow> string" where
  "re_sub p repl s =
     (case re_search p s of
        None \<Rightarrow> s
      | Some (pre, ps, t) \<Rightarrow> if length t < length s then pre @ repl @ re_sub p repl t else s)"
  by pat_completeness auto
termination
  by (relation "measure (\<lambda>(p, repl, s). length s)") auto

text \<open>\<^verbatim>\<open>re.findall(r'\b\w+\b', s)\<close>: between two word boundaries \<^verbatim>\<open>\w+\<close> takes a whole
  run of word characters, so the result is the list of the maximal runs.\<close>

fun word_runs_from :: "string \<Rightarrow> string \<Rightarrow> string list" where
  "word_runs_from w [] = (if w = [] then [] else [w])"
| "word_runs_from w (c # cs) =
     (if is_word_c c then word_runs_from (w @ [c]) cs
      else if w = [] then word_runs_from [] cs else w # word_runs_from [] cs)"

definition findall_words :: "string \<Rightarrow> string list" where
  "findall_words s = word_runs_from [] s"

abbreviation cls_upper :: "atom list" where "cls_upper \<equiv> [ARange CHR ''A'' CHR ''Z'']"
abbreviation cls_alpha_space :: "atom list" where
  "cls_alpha_space \<equiv> [ARange CHR ''A'' CHR ''Z'', ARange CHR ''a'' CHR ''z'', ASpace]"
abbreviation cls_alpha :: "atom list" where
  "cls_alpha \<equiv> [ARange CHR ''A'' CHR ''Z'', ARange CHR ''a'' CHR ''z'']"

section \<open>Data model\<close>

text \<open>A header-line candidate of a page (the bounding box, which the segmenter never
  reads, is left out), a page and a document as the PDF collaborator returns them.\<close>

record header =
  h_title :: string
  h_page :: int

record page =
  pg_number :: int
  pg_text :: string
  pg_sections :: "header list"

record doc_content =
  total_pages :: nat
  pages :: "page list"
  full_text :: string

text \<open>A section dictionary. The key \<^verbatim>\<open>relevance_score\<close> is absent until the ranker
  writes it.\<close>

record sec =
  document :: string
  title :: string
  content :: string
  page_number :: int
  sec_type :: string
  relevance_score :: "real option"

record subsec =
  sub_document :: string
  sub_content :: string
  sub_page_number :: int
  sub_relevance_score :: real
  subsection_index :: nat

record weights =
  instructional :: real
  descriptive :: real
  analytical :: real
  reference :: real

record requirements =
  dietary :: "string list"
  size_req :: "nat option"
  duration :: "string option"
  special_needs :: "string list"

record profile =
  persona :: string
  persona_type :: string
  job_task :: string
  job_actions :: "string list"
  domain_keywords :: "string list"
  reqs :: requirements
  priority_areas :: "string list"
  context_weight :: weights

text \<open>\<^verbatim>\<open>sorted(xs, key=f, reverse=True)\<close> and \<^verbatim>\<open>xs.sort(key=f, reverse=True)\<close>: a stable
  sort by descending key (elements with equal keys keep their order).\<close>

definition sort_desc :: "('a \<Rightarrow> real) \<Rightarrow> 'a list \<Rightarrow> 'a list" where
  "sort_desc f xs = sort_key (\<lambda>x. - f x) xs"

section \<open>Section segmenter (section\_extractor.py)\<close>

definition min_section_length :: nat where "min_section_length = 50"
definition max_section_length :: nat where "max_section_length = 2000"
definition min_subsection_length :: nat where "min_subsection_length = 100"
definition max_subsections_per_section :: nat where "max_subsections_per_section = 3"

text \<open>The four patterns of \<^verbatim>\<open>_looks_like_header\<close>:
  \<^verbatim>\<open>^[A-Z][a-z\s]+:?\s*$\<close>, \<^verbatim>\<open>^[A-Z\s]{3,}:?\s*$\<close>, \<^verbatim>\<open>^\d+\.\s+[A-Za-z]\<close> and
  \<^verbatim>\<open>^[A-Za-z\s]+ - [A-Za-z]\<close>.\<close>

definition header_patterns :: "item list list" where
  "header_patterns =
    [[One cls_upper, Plus [ARange CHR ''a'' CHR ''z'', ASpace], Opt [AChar CHR '':''],
      Star [ASpace], Eos],
     [AtLeast 3 [ARange CHR ''A'' CHR ''Z'', ASpace], Opt [AChar CHR '':''], Star [ASpace], Eos],
     [Plus [ADigit], One [AChar CHR ''.''], Plus [ASpace], One cls_alpha],
     [Plus cls_alpha_space, One [AChar CHR '' ''], One [AChar CHR ''-''], One [AChar CHR '' ''],
      One cls_alpha]]"

definition looks_like_header :: "string \<Rightarrow> bool" where
  "looks_like_header line0 =
     (let line = strip line0 in
      if length line < 3 \<or> length line > 100 then False
      else list_ex (\<lambda>pattern. re_match pattern line) header_patterns)"

definition is_valid_section :: "string \<Rightarrow> bool" where
  "is_valid_section content0 =
     (if content0 = [] \<or> length (strip content0) < min_section_length then False
      else if length content0 > max_section_length then False
      else let words = split_ws content0 in
           if real (card (set words)) < real (length words) * 0.3 then False
           else True)"

text \<open>\<^verbatim>\<open>_extract_section_content\<close>: the index of the first line that contains the title
  (both lowercased), then the loop over the lines after it.\<close>

fun find_section_start :: "string \<Rightarrow> nat \<Rightarrow> string list \<Rightarrow> nat option" where
  "find_section_start section_title i [] = None"
| "find_section_start section_title i (line # rest) =
     (if str_in (lower section_title) (lower line) then Some i
      else find_section_start section_title (Suc i) rest)"

fun collect_content :: "string list \<Rightarrow> string list \<Rightarrow> string list" where
  "collect_content content_lines [] = content_lines"
| "collect_content content_lines (l # rest) =
     (let line = strip l in
      if looks_like_header line \<and> length content_lines > 3 then content_lines
      else collect_content (if line \<noteq> [] then content_lines @ [line] else content_lines) rest)"

text \<open>The lines the loop keeps when it never stops: stripped, blank ones left out.\<close>

definition nonblank_lines :: "string list \<Rightarrow> string list" where
  "nonblank_lines ls = filter (\<lambda>line. line \<noteq> []) (map strip ls)"

definition extract_section_content :: "string \<Rightarrow> string \<Rightarrow> int \<Rightarrow> string" where
  "extract_section_content page_text section_title page_no =
     (let lines = split_str [nl] page_text in
      case find_section_start section_title 0 lines of
        None \<Rightarrow> []
      | Some section_start \<Rightarrow> join '' '' (collect_content [] (drop (section_start + 1) lines)))"

text \<open>\<^verbatim>\<open>_extract_implicit_sections\<close>. The loop state is the list of sections found, the
  paragraphs of the open group and its title (\<^verbatim>\<open>None\<close> at the start).\<close>

definition paragraphs_of :: "string \<Rightarrow> string list" where
  "paragraphs_of page_text = filter (\<lambda>p. p \<noteq> []) (map strip (split_str [nl, nl] page_text))"

definition first_line_of :: "string \<Rightarrow> string" where
  "first_line_of paragraph =
     (case split_str [nl] paragraph of [] \<Rightarrow> [] | l # _ \<Rightarrow> strip l)"

definition truthy_title :: "string option \<Rightarrow> bool" where
  "truthy_title t = (case t of None \<Rightarrow> False | Some s \<Rightarrow> s \<noteq> [])"

definition implicit_sec :: "string \<Rightarrow> int \<Rightarrow> string \<Rightarrow> string \<Rightarrow> sec" where
  "implicit_sec filename page_no ttl section_content =
     \<lparr>document = filename, title = ttl, content = section_content, page_number = page_no,
      sec_type = ''implicit'', relevance_score = None\<rparr>"

type_synonym implicit_state = "sec list \<times> string list \<times> string option"

text \<open>The flush inside the loop, guarded by \<^verbatim>\<open>if current_title and current_section\<close>.\<close>

definition flush_group :: "string \<Rightarrow> int \<Rightarrow> sec list \<Rightarrow> string list \<Rightarrow> string option \<Rightarrow> sec list" where
  "flush_group filename page_no sections current_section current_title =
     (case current_title of
        None \<Rightarrow> sections
      | Some t \<Rightarrow>
          if t \<noteq> [] \<and> current_section \<noteq> []
          then (let section_content = join '' '' current_section in
                if is_valid_section section_content
                then sections @ [implicit_sec filename page_no t section_content]
                else sections)
          else sections)"

text \<open>The body a header paragraph opens its group with:
  \<^verbatim>\<open>[paragraph[len(first_line):].strip()] if len(paragraph) > len(first_line) else []\<close>.\<close>

definition opening_body :: "string \<Rightarrow> string list" where
  "opening_body paragraph =
     (let first_line = first_line_of paragraph in
      if length paragraph > length first_line
      then [strip (drop (length first_line) paragraph)] else [])"

definition implicit_step :: "string \<Rightarrow> int \<Rightarrow> implicit_state \<Rightarrow> string \<Rightarrow> implicit_state" where
  "implicit_step filename page_no st paragraph =
     (case st of (sections, current_section, current_title) \<Rightarrow>
      let first_line = first_line_of paragraph in
      if looks_like_header first_line \<and> length current_section > 0
      then (flush_group filename page_no sections current_section current_title,
            opening_body paragraph,
            Some first_line)
      else (sections, current_section @ [paragraph], current_title))"

text \<open>\<^verbatim>\<open>current_title or f"Section (Page {page_number})"\<close>.\<close>

definition title_or_default :: "string option \<Rightarrow> int \<Rightarrow> string" where
  "title_or_default current_title page_no =
     (case current_title of
        Some t \<Rightarrow> if t \<noteq> [] then t else ''Section (Page '' @ str_of_int page_no @ '')''
      | None \<Rightarrow> ''Section (Page '' @ str_of_int page_no @ '')'')"

definition final_flush :: "string \<Rightarrow> int \<Rightarrow> implicit_state \<Rightarrow> sec list" where
  "final_flush filename page_no st =
     (case st of (sections, current_section, current_title) \<Rightarrow>
        if truthy_title current_title \<and> current_section \<noteq> []
        then (let section_content = join '' '' current_section in
              if is_valid_section section_content
              then sections @ [implicit_sec filename page_no
                                 (title_or_default current_title page_no) section_content]
              else sections)
        else sections)"

definition implicit_loop :: "string \<Rightarrow> int \<Rightarrow> string list \<Rightarrow> implicit_state" where
  "implicit_loop filename page_no paragraphs =
     foldl (implicit_step filename page_no) ([], [], None) paragraphs"

definition extract_implicit_sections :: "string \<Rightarrow> int \<Rightarrow> string \<Rightarrow> sec list" where
  "extract_implicit_sections page_text page_no filename =
     final_flush filename page_no (implicit_loop filename page_no (paragraphs_of page_text))"

text \<open>\<^verbatim>\<open>_deduplicate_sections\<close>: the loop state is the set of normalised contents seen and
  the list of sections kept.\<close>

definition normalized :: "string \<Rightarrow> string" where
  "normalized c = re_sub [Plus [ASpace]] '' '' (strip (lower c))"

definition dedup_step :: "string set \<times> sec list \<Rightarrow> sec \<Rightarrow> string set \<times> sec list" where
  "dedup_step st s =
     (case st of (seen_content, unique_sections) \<Rightarrow>
        if normalized (content s) \<notin> seen_content
        then (insert (normalized (content s)) seen_content, unique_sections @ [s])
        else (seen_content, unique_sections))"

definition deduplicate_sections :: "sec list \<Rightarrow> sec list" where
  "deduplicate_sections sections = snd (foldl dedup_step ({}, []) sections)"

text \<open>The same loop as a recursion on the list, for the proofs.\<close>

fun dedup_from :: "string set \<Rightarrow> sec list \<Rightarrow> sec list" where
  "dedup_from seen_content [] = []"
| "dedup_from seen_content (s # rest) =
     (if normalized (content s) \<notin> seen_content
      then s # dedup_from (insert (normalized (content s)) seen_content) rest
      else dedup_from seen_content rest)"

text \<open>\<^verbatim>\<open>_rank_sections_by_quality\<close>. Of the structure markers \<^verbatim>\<open>':'\<close>, \<^verbatim>\<open>'1.'\<close>, the
  bullet and \<^verbatim>\<open>'-'\<close>, the bullet cannot occur in text of this model.\<close>

definition quality_score :: "sec \<Rightarrow> real" where
  "quality_score s =
     (let c = content s;
          len = length c;
          score1 = (if 200 \<le> len \<and> len \<le> 1000 then 2
                    else if 100 \<le> len \<and> len \<le> 1500 then 1 else 0);
          score2 = (if any_in ['':'', ''1.'', ''-''] c then score1 + 1 else score1)
      in foldl (\<lambda>score word. if str_in word (lower c) then score + 0.5 else score) score2
           [''how'', ''what'', ''where'', ''when'', ''why'', ''include'', ''contain''])"

definition rank_sections_by_quality :: "sec list \<Rightarrow> sec list" where
  "rank_sections_by_quality sections = sort_desc quality_score sections"

definition explicit_sections :: "string \<Rightarrow> page \<Rightarrow> sec list" where
  "explicit_sections filename pg =
     concat (map (\<lambda>h.
         let section_content = extract_section_content (pg_text pg) (h_title h) (pg_number pg)
         in if is_valid_section section_content
            then [\<lparr>document = filename, title = h_title h, content = section_content,
                   page_number = pg_number pg, sec_type = ''explicit'',
                   relevance_score = None\<rparr>]
            else [])
       (pg_sections pg))"

definition page_sections :: "string \<Rightarrow> page \<Rightarrow> sec list" where
  "page_sections filename pg =
     explicit_sections filename pg
     @ extract_implicit_sections (pg_text pg) (pg_number pg) filename"

definition extract_sections :: "doc_content \<Rightarrow> string \<Rightarrow> sec list" where
  "extract_sections doc filename =
     rank_sections_by_quality
       (deduplicate_sections (concat (map (page_sections filename) (pages doc))))"

section \<open>Subsection splitter (section\_extractor.py)\<close>

text \<open>The patterns \<^verbatim>\<open>\n\s*\d+\.\s+\<close>, \<^verbatim>\<open>\n\s*[bullet, middle dot, -]\s+\<close> (the bullet
  is outside the model's characters, the middle dot is code point 183) and
  \<^verbatim>\<open>[.!?]+\s+\<close>.\<close>

definition numbered_pattern :: "item list" where
  "numbered_pattern = [One [AChar nl], Star [ASpace], Plus [ADigit], One [AChar CHR ''.''],
                       Plus [ASpace]]"

definition bullet_pattern :: "item list" where
  "bullet_pattern = [One [AChar nl], Star [ASpace], One [AChar (CHR 0xB7), AChar CHR ''-''],
                     Plus [ASpace]]"

definition sentence_pattern :: "item list" where
  "sentence_pattern = [Plus [AChar CHR ''.'', AChar CHR ''!'', AChar CHR ''?''], Plus [ASpace]]"

definition nonblank_stripped :: "string list \<Rightarrow> string list" where
  "nonblank_stripped subsections = map strip (filter (\<lambda>s. strip s \<noteq> []) subsections)"

text \<open>Strategy 3: the grouping loop over the sentences; the state is the list of groups
  closed so far and the open group.\<close>

definition group_step :: "string list \<times> string list \<Rightarrow> string \<Rightarrow> string list \<times> string list" where
  "group_step st sentence =
     (case st of (subsections, current_subsection) \<Rightarrow>
        let current' = current_subsection @ [sentence] in
        if length (join '' '' current') > 200
        then (subsections @ [join '' '' current'], [])
        else (subsections, current'))"

definition group_sentences :: "string list \<Rightarrow> string list" where
  "group_sentences sentences =
     (case foldl group_step ([], []) sentences of
        (subsections, current_subsection) \<Rightarrow>
          if current_subsection \<noteq> [] then subsections @ [join '' '' current_subsection]
          else subsections)"

text \<open>Fallback: the first index from the midpoint, fewer than 100 positions on, that
  holds a sentence end.\<close>

definition find_boundary :: "string \<Rightarrow> nat option" where
  "find_boundary c =
     (let mid_point = length c div 2 in
      case filter (\<lambda>i. c ! i \<in> set ''.!?'') [mid_point ..< min (length c) (mid_point + 100)] of
        [] \<Rightarrow> None
      | i # _ \<Rightarrow> Some i)"

definition split_into_subsections :: "string \<Rightarrow> string list" where
  "split_into_subsections c =
     (if re_search numbered_pattern c \<noteq> None \<and> length (re_split numbered_pattern c) > 1
      then nonblank_stripped (re_split numbered_pattern c)
      else if re_search bullet_pattern c \<noteq> None \<and> length (re_split bullet_pattern c) > 1
      then nonblank_stripped (re_split bullet_pattern c)
      else if length (re_split sentence_pattern c) > 10
      then group_sentences (re_split sentence_pattern c)
      else if length c > max_section_length
      then (case find_boundary c of
              Some i \<Rightarrow> [strip (take (i + 1) c), strip (drop (i + 1) c)]
            | None \<Rightarrow> [c])
      else [c])"

definition score_subsection_relevance :: "string \<Rightarrow> profile \<Rightarrow> string \<Rightarrow> real" where
  "score_subsection_relevance sub persona_context job =
     (let subsection_lower = lower sub;
          s1 = foldl (\<lambda>score keyword. if str_in (lower keyword) subsection_lower
                                        then score + 0.1 else score)
                 0 (domain_keywords persona_context);
          s2 = foldl (\<lambda>score action. if str_in action subsection_lower
                                       then score + 0.15 else score)
                 s1 (job_actions persona_context);
          s3 = foldl (\<lambda>score d. if str_in (lower d) subsection_lower
                                  then score + 0.2 else score)
                 s2 (dietary (reqs persona_context));
          s4 = foldl (\<lambda>score need. if str_in (lower need) subsection_lower
                                     then score + 0.1 else score)
                 s3 (special_needs (reqs persona_context));
          s5 = (if any_in [''instructions'', ''steps'', ''ingredients'', ''how to'']
                     subsection_lower
                then s4 + instructional (context_weight persona_context) else s4);
          s6 = (if any_in [''description'', ''features'', ''details'', ''includes'']
                     subsection_lower
                then s5 + descriptive (context_weight persona_context) else s5);
          length_score = min (real (length sub) / 500) 1 * 0.1
      in s6 + length_score)"

definition scored_subsections :: "sec \<Rightarrow> profile \<Rightarrow> string \<Rightarrow> subsec list" where
  "scored_subsections s persona_context job =
     (let candidates = split_into_subsections (content s) in
      map (\<lambda>(idx, sub).
            \<lparr>sub_document = document s, sub_content = strip sub,
             sub_page_number = page_number s,
             sub_relevance_score = score_subsection_relevance sub persona_context job,
             subsection_index = idx\<rparr>)
        (filter (\<lambda>(idx, sub). length (strip sub) \<ge> min_subsection_length)
           (zip [0 ..< length candidates] candidates)))"

definition extract_subsections :: "sec \<Rightarrow> profile \<Rightarrow> string \<Rightarrow> subsec list" where
  "extract_subsections s persona_context job =
     take max_subsections_per_section
       (sort_desc sub_relevance_score (scored_subsections s persona_context job))"

section \<open>Header detection of the PDF collaborator (document\_processor.py)\<close>

text \<open>The patterns \<^verbatim>\<open>^([A-Z][A-Za-z\s]{2,50}):?\s*$\<close>, \<^verbatim>\<open>^([A-Z\s]{3,50}):?\s*$\<close>,
  \<^verbatim>\<open>^\d+\.\s+([A-Za-z\s]{3,50}):?\s*$\<close>, \<^verbatim>\<open>^([A-Za-z\s]{3,50})\s*-\s*\<close> and
  \<^verbatim>\<open>^\*\*([A-Za-z\s]{3,50})\*\*\<close>.\<close>

definition section_patterns :: "item list list" where
  "section_patterns =
    [[One cls_upper, Rep 2 50 cls_alpha_space, Opt [AChar CHR '':''], Star [ASpace], Eos],
     [Rep 3 50 [ARange CHR ''A'' CHR ''Z'', ASpace], Opt [AChar CHR '':''], Star [ASpace], Eos],
     [Plus [ADigit], One [AChar CHR ''.''], Plus [ASpace], Rep 3 50 cls_alpha_space,
      Opt [AChar CHR '':''], Star [ASpace], Eos],
     [Rep 3 50 cls_alpha_space, Star [ASpace], One [AChar CHR ''-''], Star [ASpace]],
     [One [AChar CHR ''*''], One [AChar CHR ''*''], Rep 3 50 cls_alpha_space,
      One [AChar CHR ''*''], One [AChar CHR ''*'']]]"

definition is_section_header :: "string \<Rightarrow> bool" where
  "is_section_header text0 =
     (let t = strip text0 in
      if length t < 3 \<or> length t > 100 then False
      else if list_ex (\<lambda>pattern. re_match pattern t) section_patterns then True
      else if isupper t \<and> length (split_ws t) \<le> 8 \<and> \<not> endswith t ''.''
              \<and> \<not> str_in '':'' t then True
      else if istitle t \<and> length (split_ws t) \<le> 10 \<and> \<not> endswith t ''.''
              \<and> count_list t CHR '':'' \<le> 1 then True
      else False)"

section \<open>Persona profiler (persona\_analyzer.py)\<close>

definition persona_keywords :: "(string \<times> string list) list" where
  "persona_keywords =
    [(''researcher'', [''research'', ''methodology'', ''analysis'', ''study'', ''findings'',
        ''literature'', ''academic'', ''publication'', ''data'', ''experiment'']),
     (''student'', [''learn'', ''study'', ''exam'', ''concept'', ''understanding'',
        ''education'', ''knowledge'', ''practice'', ''tutorial'', ''explanation'']),
     (''analyst'', [''analysis'', ''trend'', ''metrics'', ''performance'', ''evaluation'',
        ''comparison'', ''insight'', ''report'', ''assessment'', ''review'']),
     (''manager'', [''strategy'', ''planning'', ''coordination'', ''team'', ''leadership'',
        ''decision'', ''execution'', ''oversight'', ''process'', ''management'']),
     (''planner'', [''plan'', ''schedule'', ''organize'', ''coordinate'', ''timeline'',
        ''logistics'', ''arrangement'', ''preparation'', ''itinerary'', ''booking'']),
     (''contractor'', [''service'', ''delivery'', ''quality'', ''specification'',
        ''requirement'', ''standard'', ''compliance'', ''execution'', ''performance'',
        ''contract'']),
     (''professional'', [''expertise'', ''skill'', ''experience'', ''competency'',
        ''qualification'', ''practice'', ''standard'', ''protocol'', ''procedure'',
        ''guideline''])]"

definition job_actions_table :: "(string \<times> string list) list" where
  "job_actions_table =
    [(''create'', [''design'', ''build'', ''develop'', ''make'', ''construct'', ''generate'',
        ''produce'', ''establish'']),
     (''analyze'', [''examine'', ''evaluate'', ''assess'', ''review'', ''investigate'',
        ''study'', ''research'', ''compare'']),
     (''plan'', [''organize'', ''schedule'', ''prepare'', ''arrange'', ''coordinate'',
        ''design'', ''structure'', ''outline'']),
     (''manage'', [''oversee'', ''supervise'', ''control'', ''direct'', ''handle'',
        ''administer'', ''govern'', ''lead'']),
     (''prepare'', [''ready'', ''setup'', ''arrange'', ''organize'', ''compile'',
        ''assemble'', ''gather'', ''collect''])]"

text \<open>The \<^verbatim>\<open>for\<close> loop of \<^verbatim>\<open>_identify_persona_type\<close> over the table, in its order.\<close>

fun first_persona_type :: "(string \<times> string list) list \<Rightarrow> string \<Rightarrow> string option" where
  "first_persona_type [] persona_text = None"
| "first_persona_type ((ptype, keywords) # rest) persona_text =
     (if str_in ptype persona_text \<or> any_in (take 3 keywords) persona_text
      then Some ptype
      else first_persona_type rest persona_text)"

definition identify_persona_type :: "string \<Rightarrow> string" where
  "identify_persona_type persona_text =
     (case first_persona_type persona_keywords persona_text of
        Some ptype \<Rightarrow> ptype
      | None \<Rightarrow>
          if any_in [''hr'', ''human'', ''resource''] persona_text then ''professional''
          else if any_in [''food'', ''chef'', ''cook'', ''menu''] persona_text then ''contractor''
          else if any_in [''travel'', ''trip'', ''tour''] persona_text then ''planner''
          else ''professional'')"

text \<open>\<^verbatim>\<open>_calculate_context_weights\<close>: the four updates in the source's order, then the
  division of every weight by the total taken before the division.\<close>

definition calculate_context_weights :: "string \<Rightarrow> string list \<Rightarrow> weights" where
  "calculate_context_weights ptype actions =
    (let w0 = \<lparr>instructional = 0.3, descriptive = 0.3, analytical = 0.2, reference = 0.2\<rparr>;
         w1 = (if ptype \<in> set [''student'', ''researcher'']
               then w0\<lparr>analytical := analytical w0 + 0.2, reference := reference w0 + 0.1\<rparr>
               else if ptype \<in> set [''planner'', ''contractor'']
               then w0\<lparr>instructional := instructional w0 + 0.2,
                       descriptive := descriptive w0 + 0.1\<rparr>
               else w0);
         w2 = (if ''create'' \<in> set actions \<or> ''prepare'' \<in> set actions
               then w1\<lparr>instructional := instructional w1 + 0.2\<rparr> else w1);
         w3 = (if ''analyze'' \<in> set actions
               then w2\<lparr>analytical := analytical w2 + 0.2\<rparr> else w2);
         w4 = (if ''plan'' \<in> set actions
               then w3\<lparr>descriptive := descriptive w3 + 0.2\<rparr> else w3);
         total_weight = instructional w4 + descriptive w4 + analytical w4 + reference w4
     in \<lparr>instructional = instructional w4 / total_weight,
         descriptive = descriptive w4 / total_weight,
         analytical = analytical w4 / total_weight,
         reference = reference w4 / total_weight\<rparr>)"

text \<open>\<^verbatim>\<open>_extract_job_actions\<close>. Python's \<^verbatim>\<open>list(set(actions))\<close> keeps one copy of every
  action in an order the language leaves open; the model keeps the order of
  \<^const>\<open>remdups\<close>, and nothing below depends on it.\<close>

definition extract_job_actions :: "string \<Rightarrow> string list" where
  "extract_job_actions task =
     (let actions =
            map fst (filter (\<lambda>(action_type, action_words).
                               str_in action_type task \<or> any_in action_words task)
                       job_actions_table)
            @ (if str_in ''menu'' task \<or> str_in ''food'' task \<or> str_in ''recipe'' task
               then [''prepare''] else [])
            @ (if str_in ''form'' task \<or> str_in ''document'' task then [''create''] else [])
            @ (if str_in ''trip'' task \<or> str_in ''travel'' task \<or> str_in ''itinerary'' task
               then [''plan''] else [])
      in if actions \<noteq> [] then remdups actions else [''analyze''])"

definition get_domain_keywords :: "string \<Rightarrow> string \<Rightarrow> string list" where
  "get_domain_keywords ptype task =
     (case map_of persona_keywords ptype of None \<Rightarrow> [] | Some keywords \<Rightarrow> keywords)
     @ (if any_in [''menu'', ''food'', ''recipe'', ''vegetarian'', ''buffet''] task
        then [''recipe'', ''ingredient'', ''cooking'', ''nutrition'', ''dietary''] else [])
     @ (if any_in [''travel'', ''trip'', ''vacation'', ''tourist''] task
        then [''destination'', ''activity'', ''accommodation'', ''transportation'',
              ''attraction''] else [])
     @ (if any_in [''business'', ''corporate'', ''company'', ''professional''] task
        then [''business'', ''corporate'', ''professional'', ''service'', ''quality''] else [])
     @ (if any_in [''form'', ''hr'', ''employee'', ''onboarding''] task
        then [''form'', ''employee'', ''process'', ''compliance'', ''documentation''] else [])"

text \<open>The patterns \<^verbatim>\<open>(\d+)\s*(people|person|friend|guest|individual)\<close> and
  \<^verbatim>\<open>(\d+)\s*(day|week|hour|month)\<close>: group 1 is the first piece of the match, group 2
  the third.\<close>

definition size_pattern :: "item list" where
  "size_pattern = [Plus [ADigit], Star [ASpace],
                   Alt [''people'', ''person'', ''friend'', ''guest'', ''individual'']]"

definition duration_pattern :: "item list" where
  "duration_pattern = [Plus [ADigit], Star [ASpace], Alt [''day'', ''week'', ''hour'', ''month'']]"

definition extract_requirements :: "string \<Rightarrow> requirements" where
  "extract_requirements task =
     \<lparr>dietary = filter (\<lambda>term. str_in term task)
                  [''vegetarian'', ''vegan'', ''gluten-free'', ''halal'', ''kosher'',
                   ''dairy-free''],
      size_req = (case re_search size_pattern task of
                    Some (pre, [g1, sp, g2], rest) \<Rightarrow> Some (int_of_digits g1)
                  | _ \<Rightarrow> None),
      duration = (case re_search duration_pattern task of
                    Some (pre, [g1, sp, g2], rest) \<Rightarrow> Some (g1 @ '' '' @ g2 @ ''s'')
                  | _ \<Rightarrow> None),
      special_needs =
          (if str_in ''corporate'' task then [''professional''] else [])
        @ (if str_in ''buffet'' task then [''buffet-style''] else [])
        @ (if str_in ''college'' task then [''budget-friendly''] else [])\<rparr>"

definition priority_map :: "(string \<times> string list) list" where
  "priority_map =
    [(''researcher'', [''methodology'', ''analysis'', ''findings'', ''literature'']),
     (''student'', [''concepts'', ''examples'', ''explanations'', ''practice'']),
     (''planner'', [''logistics'', ''schedule'', ''activities'', ''recommendations'']),
     (''contractor'', [''specifications'', ''quality'', ''delivery'', ''requirements'']),
     (''professional'', [''process'', ''compliance'', ''standards'', ''best-practices''])]"

definition action_priorities :: "(string \<times> string list) list" where
  "action_priorities =
    [(''create'', [''instructions'', ''steps'', ''tools'', ''templates'']),
     (''plan'', [''options'', ''schedule'', ''logistics'', ''recommendations'']),
     (''analyze'', [''data'', ''comparison'', ''insights'', ''trends'']),
     (''prepare'', [''ingredients'', ''materials'', ''steps'', ''requirements''])]"

definition identify_priority_areas :: "string \<Rightarrow> string list \<Rightarrow> string list" where
  "identify_priority_areas ptype actions =
     (let base_priorities =
            (case map_of priority_map ptype of
               None \<Rightarrow> [''information'', ''details'']
             | Some ps \<Rightarrow> ps)
      in remdups (foldl (\<lambda>priorities action.
                           priorities @ (case map_of action_priorities action of
                                           None \<Rightarrow> [] | Some ps \<Rightarrow> ps))
                    base_priorities actions))"

definition create_persona_profile :: "string \<Rightarrow> string \<Rightarrow> profile" where
  "create_persona_profile persona0 job =
     (let persona_lower = lower persona0;
          task_lower = lower job;
          ptype = identify_persona_type persona_lower;
          actions = extract_job_actions task_lower
      in \<lparr>persona = persona0,
          persona_type = ptype,
          job_task = job,
          job_actions = actions,
          domain_keywords = get_domain_keywords ptype task_lower,
          reqs = extract_requirements task_lower,
          priority_areas = identify_priority_areas ptype actions,
          context_weight = calculate_context_weights ptype actions\<rparr>)"

section \<open>Relevance ranker (relevance\_ranker.py)\<close>

text \<open>
  The embedding model and the TF-IDF vectoriser are external. Each is a function from the
  query context and the section texts to the list of cosine similarities, or to
  \<^verbatim>\<open>None\<close> when the call raises (the source catches every exception there). The
  sentence model itself is absent when loading it failed.
\<close>

type_synonym similarity = "string \<Rightarrow> string list \<Rightarrow> real list option"

datatype py_error = IndexError

definition create_query_context :: "profile \<Rightarrow> string \<Rightarrow> string" where
  "create_query_context persona_context job =
     (let context_parts =
            [persona persona_context, job,
             join '' '' (domain_keywords persona_context),
             join '' '' (job_actions persona_context),
             join '' '' (priority_areas persona_context)]
            @ dietary (reqs persona_context) @ special_needs (reqs persona_context)
      in join '' '' (filter (\<lambda>part. part \<noteq> []) context_parts))"

definition calculate_semantic_similarity :: "similarity option \<Rightarrow> sec list \<Rightarrow> string \<Rightarrow> real list" where
  "calculate_semantic_similarity sentence_model sections query_context =
     (case sentence_model of
        None \<Rightarrow> replicate (length sections) 0.5
      | Some encode_and_compare \<Rightarrow>
          (case encode_and_compare query_context (map content sections) of
             Some similarities \<Rightarrow> similarities
           | None \<Rightarrow> replicate (length sections) 0.5))"

definition calculate_tfidf_similarity :: "similarity \<Rightarrow> sec list \<Rightarrow> string \<Rightarrow> real list" where
  "calculate_tfidf_similarity tfidf_vectorizer sections query_context =
     (case tfidf_vectorizer query_context (map content sections) of
        Some similarities \<Rightarrow> similarities
      | None \<Rightarrow> replicate (length sections) 0.5)"

definition profile_keywords :: "profile \<Rightarrow> string set" where
  "profile_keywords persona_context =
     set (map lower (domain_keywords persona_context))
     \<union> set (map lower (job_actions persona_context))
     \<union> set (map lower (priority_areas persona_context))
     \<union> set (map lower (dietary (reqs persona_context)))
     \<union> set (map lower (special_needs (reqs persona_context)))"

definition keyword_similarity :: "string set \<Rightarrow> sec \<Rightarrow> real" where
  "keyword_similarity keywords s =
     (let section_text = lower (content s);
          section_words = set (findall_words section_text);
          intersection = keywords \<inter> section_words;
          union = keywords \<union> section_words;
          jaccard_sim = (if union \<noteq> {} then real (card intersection) / real (card union)
                         else 0);
          keyword_count = card (Set.filter (\<lambda>kw. str_in kw section_text) keywords);
          keyword_density = (if split_ws section_text \<noteq> []
                             then real keyword_count / real (length (split_ws section_text))
                             else 0)
      in jaccard_sim * 0.7 + min (keyword_density * 10) 1 * 0.3)"

definition calculate_keyword_similarity :: "sec list \<Rightarrow> profile \<Rightarrow> real list" where
  "calculate_keyword_similarity sections persona_context =
     map (keyword_similarity (profile_keywords persona_context)) sections"

text \<open>Of the bullet markers of \<^verbatim>\<open>_calculate_structural_scores\<close> the first holds the
  euro sign and cannot occur in text of this model; \<^verbatim>\<open>'-'\<close> and \<^verbatim>\<open>'*'\<close> remain.\<close>

definition structural_score :: "string \<Rightarrow> sec \<Rightarrow> real" where
  "structural_score ptype s =
     (let c = content s;
          len = length c;
          s1 = (if 200 \<le> len \<and> len \<le> 1000 then 0.3
                else if 100 \<le> len \<and> len \<le> 1500 then 0.2
                else if len > 50 then 0.1 else 0);
          s2 = (if str_in '':'' c then s1 + 0.2 else s1);
          s3 = (if re_search [Plus [ADigit], One [AChar CHR ''.'']] c \<noteq> None
                then s2 + 0.2 else s2);
          s4 = (if any_in [''-'', ''*''] c then s3 + 0.15 else s3);
          info_count = length (filter (\<lambda>indicator. str_in indicator (lower c))
                         [''ingredients'', ''steps'', ''instructions'', ''how to'', ''recipe'',
                          ''procedure'', ''method'', ''technique'', ''tip'', ''recommendation'']);
          s5 = s4 + min (real info_count * 0.05) 0.3;
          s6 = (if ptype = ''contractor''
                   \<and> any_in [''recipe'', ''ingredients'', ''cooking''] (lower c)
                then s5 + 0.2 else s5);
          s7 = (if ptype = ''planner''
                   \<and> any_in [''activity'', ''visit'', ''explore'', ''enjoy''] (lower c)
                then s6 + 0.2 else s6);
          s8 = (if ptype = ''professional''
                   \<and> any_in [''form'', ''process'', ''step'', ''create''] (lower c)
                then s7 + 0.2 else s7)
      in min s8 1)"

definition calculate_structural_scores :: "sec list \<Rightarrow> profile \<Rightarrow> real list" where
  "calculate_structural_scores sections persona_context =
     map (structural_score (persona_type persona_context)) sections"

text \<open>\<^verbatim>\<open>_apply_persona_boosting\<close> in three stages, as the source has them: the boosts of
  the persona type, the boosts of the job text, the boost of the title, then the cap.\<close>

definition persona_boost :: "profile \<Rightarrow> string \<Rightarrow> real \<Rightarrow> real" where
  "persona_boost persona_context c score =
     (let ptype = persona_type persona_context in
      if ptype = ''contractor'' then
        (let b1 = (if any_in [''recipe'', ''ingredients'', ''cooking'', ''preparation''] c
                   then score * 1.3 else score)
         in foldl (\<lambda>b req. if str_in (lower req) c then b * 1.2 else b) b1
              (dietary (reqs persona_context)))
      else if ptype = ''planner'' then
        (let b1 = (if any_in [''activity'', ''attraction'', ''visit'', ''explore'',
                              ''destination''] c
                   then score * 1.3 else score)
         in if any_in [''group'', ''friends'', ''together'', ''party''] c then b1 * 1.2 else b1)
      else if ptype = ''professional'' then
        (let b1 = (if any_in [''form'', ''process'', ''procedure'', ''workflow'', ''step''] c
                   then score * 1.3 else score)
         in if any_in [''compliance'', ''professional'', ''business'', ''corporate''] c
            then b1 * 1.2 else b1)
      else score)"

definition job_boost :: "string \<Rightarrow> string \<Rightarrow> real \<Rightarrow> real" where
  "job_boost job c score =
     (let job_lower = lower job;
          b1 = (if str_in ''buffet'' job_lower \<and> str_in ''buffet'' c then score * 1.3 else score);
          b2 = (if str_in ''vegetarian'' job_lower \<and> str_in ''vegetarian'' c
                then b1 * 1.3 else b1);
          b3 = (if str_in ''college'' job_lower
                   \<and> any_in [''budget'', ''affordable'', ''cheap'', ''student''] c
                then b2 * 1.2 else b2)
      in if str_in ''corporate'' job_lower
            \<and> any_in [''professional'', ''business'', ''corporate''] c
         then b3 * 1.2 else b3)"

definition title_boost :: "profile \<Rightarrow> sec \<Rightarrow> real \<Rightarrow> real" where
  "title_boost persona_context s score =
     (let title_words = set (split_ws (lower (title s)));
          persona_words = set (domain_keywords persona_context);
          title_overlap = card (title_words \<inter> lower ` persona_words)
      in if title_overlap > 0 then score * (1 + real title_overlap * 0.1) else score)"

definition apply_persona_boosting :: "sec \<Rightarrow> real \<Rightarrow> profile \<Rightarrow> string \<Rightarrow> real" where
  "apply_persona_boosting s base_score persona_context job =
     (let c = lower (content s);
          boosted_score =
            title_boost persona_context s
              (job_boost job c (persona_boost persona_context c base_score))
      in min boosted_score 2)"

text \<open>The scoring loop of \<^verbatim>\<open>rank_sections\<close>: reading a score list beyond its end raises
  \<^verbatim>\<open>IndexError\<close>. Each section gets its score written to \<^verbatim>\<open>relevance_score\<close> and is
  paired with it.\<close>

fun score_loop :: "real list \<Rightarrow> real list \<Rightarrow> real list \<Rightarrow> real list \<Rightarrow> profile \<Rightarrow> string
    \<Rightarrow> nat \<Rightarrow> sec list \<Rightarrow> py_error + (sec \<times> real) list" where
  "score_loop semantic_scores tfidf_scores keyword_scores structural_scores
     persona_context job i [] = Inr []"
| "score_loop semantic_scores tfidf_scores keyword_scores structural_scores
     persona_context job i (s # rest) =
     (if i < length semantic_scores \<and> i < length tfidf_scores
         \<and> i < length keyword_scores \<and> i < length structural_scores
      then (let combined_score = semantic_scores ! i * 0.4 + tfidf_scores ! i * 0.3
                                 + keyword_scores ! i * 0.2 + structural_scores ! i * 0.1;
                boosted_score = apply_persona_boosting s combined_score persona_context job
            in case score_loop semantic_scores tfidf_scores keyword_scores structural_scores
                      persona_context job (Suc i) rest of
                 Inl e \<Rightarrow> Inl e
               | Inr scored \<Rightarrow>
                   Inr ((s\<lparr>relevance_score := Some boosted_score\<rparr>, boosted_score) # scored))
      else Inl IndexError)"

definition rank_sections :: "similarity option \<Rightarrow> similarity \<Rightarrow> sec list \<Rightarrow> profile \<Rightarrow> string
    \<Rightarrow> py_error + sec list" where
  "rank_sections sentence_model tfidf_vectorizer sections persona_context job =
     (if sections = [] then Inr []
      else
        (let query_context = create_query_context persona_context job;
             semantic_scores = calculate_semantic_similarity sentence_model sections query_context;
             tfidf_scores = calculate_tfidf_similarity tfidf_vectorizer sections query_context;
             keyword_scores = calculate_keyword_similarity sections persona_context;
             structural_scores = calculate_structural_scores sections persona_context
         in case score_loop semantic_scores tfidf_scores keyword_scores structural_scores
                   persona_context job 0 sections of
              Inl e \<Rightarrow> Inl e
            | Inr scored \<Rightarrow> Inr (map fst (sort_desc snd scored))))"

section \<open>Example inputs\<close>

text \<open>The scenario of the specification: a food contractor preparing a buffet.\<close>

definition buffet_job :: string where
  "buffet_job = ''Prepare a vegetarian buffet menu for a corporate event of 50 people''"

definition buffet_profile :: profile where
  "buffet_profile = create_persona_profile ''Food Contractor'' buffet_job"

text \<open>A section whose body is a numbered list of four items, each longer than 100
  characters, after a short lead line.\<close>

definition buffet_notes :: sec where
  "buffet_notes =
     \<lparr>document = ''menu.pdf'', title = ''Buffet planning'',
      content = ''Buffet planning notes'' @ [nl]
        @ ''1. Prepare the vegetarian ingredients early and follow the cooking steps for each recipe on the buffet menu card.'' @ [nl]
        @ ''2. Arrange the serving tables so that guests can move along both sides without waiting in one long single line.'' @ [nl]
        @ ''3. Label every dish clearly with its name and the details of all allergens so that guests can choose safely.'' @ [nl]
        @ ''4. Keep hot dishes above sixty degrees and replace the trays every two hours during the whole corporate event.'',
      page_number = 3, sec_type = ''implicit'', relevance_score = None\<rparr>"

text \<open>A page with the header \<open>Overview\<close>, three content lines, the header-like line
  \<open>Summary\<close> and one more line; and the same page with a fourth content line before
  \<open>Summary\<close>.\<close>

definition overview_text :: string where
  "overview_text = ''Overview'' @ [nl] @ ''alpha one'' @ [nl] @ ''beta two'' @ [nl]
     @ ''gamma three'' @ [nl] @ ''Summary'' @ [nl] @ ''delta four'' @ [nl]"

definition overview_text4 :: string where
  "overview_text4 = ''Overview'' @ [nl] @ ''alpha one'' @ [nl] @ ''beta two'' @ [nl]
     @ ''gamma three'' @ [nl] @ ''delta four'' @ [nl] @ ''Summary'' @ [nl] @ ''epsilon five''
     @ [nl]"

text \<open>A page of four paragraphs: two of plain text, then one that starts with the
  header-like line \<open>Serving\<close>, then one more of plain text.\<close>

definition welcome_paragraphs :: "string list" where
  "welcome_paragraphs =
     [''Welcome to the autumn menu guide for the kitchen team.'',
      ''all dishes are prepared fresh each morning, and nothing is frozen.'']"

definition serving_paragraph :: string where
  "serving_paragraph = ''Serving'' @ [nl]
     @ ''guests are served at long tables near the garden doors, with plates at both ends.''"

definition drinks_paragraph :: string where
  "drinks_paragraph = ''drinks are placed on a separate table beside the entrance.''"

definition serving_page_text :: string where
  "serving_page_text =
     join [nl, nl] (welcome_paragraphs @ [serving_paragraph, drinks_paragraph])"

text \<open>The same page followed by a paragraph that is the header line \<open>Desserts\<close> alone and
  by a paragraph whose first line, \<open>Cakes and tarts\<close>, is header-like too.\<close>

definition cakes_paragraph :: string where
  "cakes_paragraph = ''Cakes and tarts'' @ [nl]
     @ ''fruit tarts and small cakes are set out after the main course on the side table.''"

definition dessert_page_text :: string where
  "dessert_page_text =
     join [nl, nl] (welcome_paragraphs
                    @ [serving_paragraph, drinks_paragraph, ''Desserts'', cakes_paragraph])"

section \<open>Properties\<close>

subsection \<open>Shared facts about sorting and the dedup loop\<close>

lemma sort_desc_set: "set (sort_desc f xs) = set xs"
  by (simp add: sort_desc_def)

lemma sort_desc_sorted:
  "sorted_wrt (\<lambda>a b. f b \<le> f a) (sort_desc f xs)"
proof -
  have "sorted (map (\<lambda>x. - f x) (sort_key (\<lambda>x. - f x) xs))"
    by (rule sorted_sort_key)
  then show ?thesis
    by (simp add: sort_desc_def sorted_map)
qed

lemma sort_desc_mset: "mset (sort_desc f xs) = mset xs"
  by (simp add: sort_desc_def)

lemma dedup_from_subset: "set (dedup_from seen xs) \<subseteq> set xs"
  by (induction xs arbitrary: seen) auto

lemma dedup_foldl:
  "foldl dedup_step (seen, kept) xs =
     (seen \<union> (\<lambda>s. normalized (content s)) ` set xs, kept @ dedup_from seen xs)"
  by (induction xs arbitrary: seen kept) (auto simp: dedup_step_def)

lemma deduplicate_sections_eq: "deduplicate_sections xs = dedup_from {} xs"
  by (simp add: deduplicate_sections_def dedup_foldl)

subsection \<open>The matcher only moves forward\<close>

text \<open>A match never ends before it starts, and a pattern that begins with a single
  character or a \<^verbatim>\<open>+\<close> item takes at least one character. For the patterns the source
  splits and substitutes on, the length test of \<^const>\<open>re_split\<close> and \<^const>\<open>re_sub\<close>
  therefore always succeeds.\<close>

lemma add_piece_Some: "add_piece p r = Some (ps, t) \<Longrightarrow> \<exists>qs. r = Some (qs, t)"
  by (auto simp: add_piece_def split: option.splits)

lemma grow_Some: "grow x r = Some (ps, t) \<Longrightarrow> \<exists>qs. r = Some (qs, t)"
  by (auto simp: grow_def split: option.splits list.splits)

lemma or_else_Some: "or_else a b = Some m \<Longrightarrow> a = Some m \<or> b = Some m"
  by (auto simp: or_else_def split: option.splits)

lemma first_some_Some: "first_some rs = Some m \<Longrightarrow> Some m \<in> set rs"
  by (induction rs) (auto split: option.splits)

lemma rx_match_rest: "rx_match p s = Some (ps, t) \<Longrightarrow> length t \<le> length s"
proof (induction p s arbitrary: ps t rule: rx_match.induct)
  case (18 ws r s)
  from first_some_Some [OF "18.prems" [simplified]]
  obtain w where w: "w \<in> set ws" "prefix w s"
    and m: "add_piece w (rx_match r (drop (length w) s)) = Some (ps, t)"
    by (auto split: if_splits)
  from add_piece_Some [OF m] obtain qs where "rx_match r (drop (length w) s) = Some (qs, t)" ..
  with "18.IH" [OF w] have "length t \<le> length (drop (length w) s)" by blast
  then show ?case by simp
qed (fastforce split: if_splits dest!: add_piece_Some grow_Some dest: or_else_Some)+

lemma rx_match_consumes:
  assumes "rx_match p s = Some (ps, t)" and "\<exists>c r. p = One c # r \<or> p = Plus c # r"
  shows "length t < length s"
proof (cases s)
  case Nil
  with assms show ?thesis by auto
next
  case (Cons x xs)
  with assms obtain q qs where "rx_match q xs = Some (qs, t)"
    by (auto split: if_splits dest!: add_piece_Some grow_Some)
  from rx_match_rest [OF this] Cons show ?thesis by simp
qed

lemma re_search_consumes:
  assumes "re_search p s = Some (pre, ps, t)" and "\<exists>c r. p = One c # r \<or> p = Plus c # r"
  shows "length t < length s"
  using assms
proof (induction s arbitrary: pre)
  case Nil
  then show ?case by (auto split: option.splits)
next
  case (Cons x xs)
  show ?case
  proof (cases "rx_match p (x # xs)")
    case None
    with Cons.prems obtain pre' where "re_search p xs = Some (pre', ps, t)"
      by (auto split: option.splits)
    from Cons.IH [OF this Cons.prems(2)] show ?thesis by simp
  next
    case (Some m)
    with Cons.prems have "rx_match p (x # xs) = Some (ps, t)"
      by (auto split: option.splits)
    from rx_match_consumes [OF this Cons.prems(2)] show ?thesis .
  qed
qed

lemma re_split_unguarded:
  assumes "\<exists>c r. p = One c # r \<or> p = Plus c # r"
  shows "re_split p s = (case re_search p s of None \<Rightarrow> [s]
                         | Some (pre, ps, t) \<Rightarrow> pre # re_split p t)"
  using re_search_consumes [OF _ assms, of s]
  by (subst re_split.simps) (auto split: option.splits)

lemma re_sub_unguarded:
  assumes "\<exists>c r. p = One c # r \<or> p = Plus c # r"
  shows "re_sub p repl s = (case re_search p s of None \<Rightarrow> s
                            | Some (pre, ps, t) \<Rightarrow> pre @ repl @ re_sub p repl t)"
  using re_search_consumes [OF _ assms, of s]
  by (subst re_sub.simps) (auto split: option.splits)

lemma source_patterns_consume:
  "p \<in> {numbered_pattern, bullet_pattern, sentence_pattern, [Plus [ASpace]]}
   \<Longrightarrow> \<exists>c r. p = One c # r \<or> p = Plus c # r"
  by (auto simp: numbered_pattern_def bullet_pattern_def sentence_pattern_def)

subsection \<open>Normalised content-type weights\<close>

text \<open>
  Claim C6. For every persona type and every list of job actions, the four content-type
  weights returned by the persona profiler add up to 1 (floats read as exact reals).
\<close>

theorem context_weights_sum_one:
  "instructional (calculate_context_weights ptype actions)
   + descriptive (calculate_context_weights ptype actions)
   + analytical (calculate_context_weights ptype actions)
   + reference (calculate_context_weights ptype actions) = 1"
  by (simp add: calculate_context_weights_def Let_def)

theorem context_weights_sum_one_witness:
  "instructional (calculate_context_weights ''contractor'' [''prepare''])
   + descriptive (calculate_context_weights ''contractor'' [''prepare''])
   + analytical (calculate_context_weights ''contractor'' [''prepare''])
   + reference (calculate_context_weights ''contractor'' [''prepare'']) = 1"
  by (rule context_weights_sum_one)

subsection \<open>The ranker's score cap\<close>

lemma apply_persona_boosting_le_2: "apply_persona_boosting s base_score pc job \<le> 2"
  by (simp add: apply_persona_boosting_def Let_def)

lemma score_loop_capped:
  "score_loop sem tf kw st pc job i ss = Inr scored \<Longrightarrow> (x, r) \<in> set scored
   \<Longrightarrow> relevance_score x = Some r \<and> r \<le> 2"
proof (induction ss arbitrary: i scored)
  case Nil
  then show ?case by simp
next
  case (Cons s ss)
  then show ?case
    by (auto simp: Let_def apply_persona_boosting_le_2 split: if_splits sum.splits)
qed

text \<open>
  Claim C1. Whatever the sections, the profile, the job and the two external similarity
  functions are, every section that \<^const>\<open>rank_sections\<close> returns carries a relevance
  score, and that score, taken after all multiplicative boosts, is at most 2.
\<close>

theorem relevance_score_capped:
  assumes "rank_sections sentence_model tfidf_vectorizer sections pc job = Inr ranked"
      and "s \<in> set ranked"
  shows "\<exists>score. relevance_score s = Some score \<and> score \<le> 2"
proof (cases "sections = []")
  case True
  with assms show ?thesis by (simp add: rank_sections_def)
next
  case False
  with assms(1) obtain scored where
    loop: "score_loop
             (calculate_semantic_similarity sentence_model sections
                (create_query_context pc job))
             (calculate_tfidf_similarity tfidf_vectorizer sections (create_query_context pc job))
             (calculate_keyword_similarity sections pc)
             (calculate_structural_scores sections pc) pc job 0 sections = Inr scored"
    and ranked: "ranked = map fst (sort_desc snd scored)"
    by (auto simp: rank_sections_def Let_def split: sum.splits)
  from assms(2) ranked obtain r where "(s, r) \<in> set scored"
    by (auto simp: sort_desc_set)
  with loop show ?thesis
    by (blast dest: score_loop_capped)
qed

text \<open>The witness ranks one section about a vegetarian buffet for the food contractor,
  with no sentence model and a failing TF-IDF call.\<close>

theorem relevance_score_capped_witness:
  "\<exists>ranked s.
     rank_sections None (\<lambda>q ts. None)
       [implicit_sec ''menu.pdf'' 1 ''Cooking'' ''vegetarian buffet recipe with cooking steps'']
       (create_persona_profile ''Food Contractor''
          ''Prepare a vegetarian buffet menu for a corporate event of 50 people'')
       ''Prepare a vegetarian buffet menu for a corporate event of 50 people'' = Inr ranked
     \<and> s \<in> set ranked \<and> (\<exists>score. relevance_score s = Some score \<and> score \<le> 2)"
proof -
  let ?secs = "[implicit_sec ''menu.pdf'' 1 ''Cooking''
                  ''vegetarian buffet recipe with cooking steps'']"
  let ?job = "''Prepare a vegetarian buffet menu for a corporate event of 50 people''"
  let ?pc = "create_persona_profile ''Food Contractor'' ?job"
  obtain ranked s where run: "rank_sections None (\<lambda>q ts. None) ?secs ?pc ?job = Inr ranked"
    and mem: "s \<in> set ranked"
    by (simp add: rank_sections_def Let_def calculate_semantic_similarity_def
        calculate_tfidf_similarity_def calculate_keyword_similarity_def
        calculate_structural_scores_def sort_desc_def)
  from relevance_score_capped [OF run mem] run mem show ?thesis by blast
qed

text \<open>The ranking returns a list of the same length whenever each collaborator, if it
  answers, gives one similarity per section (as a cosine-similarity row does).\<close>

lemma score_loop_returns:
  "i + length ss \<le> length sem \<Longrightarrow> i + length ss \<le> length tf
   \<Longrightarrow> i + length ss \<le> length kw \<Longrightarrow> i + length ss \<le> length st
   \<Longrightarrow> \<exists>scored. score_loop sem tf kw st pc job i ss = Inr scored
                \<and> length scored = length ss"
proof (induction ss arbitrary: i)
  case Nil
  then show ?case by simp
next
  case (Cons s ss)
  from Cons.prems have "Suc i + length ss \<le> length sem" "Suc i + length ss \<le> length tf"
    "Suc i + length ss \<le> length kw" "Suc i + length ss \<le> length st"
    by simp_all
  from Cons.IH [OF this] obtain scored where
    "score_loop sem tf kw st pc job (Suc i) ss = Inr scored" "length scored = length ss"
    by blast
  with Cons.prems show ?case by (simp add: Let_def)
qed

lemma rank_sections_returns:
  assumes sem: "\<And>enc q ts sims. sentence_model = Some enc \<Longrightarrow> enc q ts = Some sims
                  \<Longrightarrow> length sims = length ts"
      and tf: "\<And>q ts sims. tfidf_vectorizer q ts = Some sims \<Longrightarrow> length sims = length ts"
  shows "\<exists>ranked. rank_sections sentence_model tfidf_vectorizer sections pc job = Inr ranked
                 \<and> length ranked = length sections"
proof (cases "sections = []")
  case True
  then show ?thesis by (simp add: rank_sections_def)
next
  case False
  let ?q = "create_query_context pc job"
  have l1: "length (calculate_semantic_similarity sentence_model sections ?q) = length sections"
    using sem by (auto simp: calculate_semantic_similarity_def split: option.splits)
  have l2: "length (calculate_tfidf_similarity tfidf_vectorizer sections ?q) = length sections"
    using tf by (auto simp: calculate_tfidf_similarity_def split: option.splits)
  have l3: "length (calculate_keyword_similarity sections pc) = length sections"
    by (simp add: calculate_keyword_similarity_def)
  have l4: "length (calculate_structural_scores sections pc) = length sections"
    by (simp add: calculate_structural_scores_def)
  obtain scored where
    "score_loop (calculate_semantic_similarity sentence_model sections ?q)
       (calculate_tfidf_similarity tfidf_vectorizer sections ?q)
       (calculate_keyword_similarity sections pc) (calculate_structural_scores sections pc)
       pc job 0 sections = Inr scored" "length scored = length sections"
    using score_loop_returns [of 0 sections
        "calculate_semantic_similarity sentence_model sections ?q"
        "calculate_tfidf_similarity tfidf_vectorizer sections ?q"
        "calculate_keyword_similarity sections pc" "calculate_structural_scores sections pc"
        pc job]
    by (auto simp: l1 l2 l3 l4)
  with False show ?thesis
    by (simp add: rank_sections_def Let_def sort_desc_def)
qed

subsection \<open>Ranking no sections\<close>

text \<open>
  Claim C10. On the empty section list \<^const>\<open>rank_sections\<close> returns the empty list,
  for every profile and job, without an error and whatever the similarity collaborators
  would do (none of them is consulted: the result does not depend on them).
\<close>

theorem rank_sections_empty:
  "rank_sections sentence_model tfidf_vectorizer [] pc job = Inr []"
  by (simp add: rank_sections_def)

theorem rank_sections_empty_witness:
  "rank_sections None (\<lambda>q ts. None) []
     (create_persona_profile ''Food Contractor'' ''Prepare a vegetarian buffet menu'')
     ''Prepare a vegetarian buffet menu'' = Inr []"
  by (rule rank_sections_empty)

subsection \<open>Deduplication\<close>

lemma dedup_from_fresh:
  "s \<in> set (dedup_from seen xs) \<Longrightarrow> normalized (content s) \<notin> seen"
  by (induction xs arbitrary: seen) (auto split: if_splits)

lemma dedup_from_distinct:
  "distinct (map (\<lambda>s. normalized (content s)) (dedup_from seen xs))"
  by (induction xs arbitrary: seen) (auto dest: dedup_from_fresh)

lemma dedup_from_fixed:
  "distinct (map (\<lambda>s. normalized (content s)) ys)
   \<Longrightarrow> \<forall>y\<in>set ys. normalized (content y) \<notin> seen
   \<Longrightarrow> dedup_from seen ys = ys"
proof (induction ys arbitrary: seen)
  case Nil
  then show ?case by simp
next
  case (Cons y ys)
  have fresh: "\<forall>z\<in>set ys. normalized (content z) \<notin> insert (normalized (content y)) seen"
  proof
    fix z assume z: "z \<in> set ys"
    with Cons.prems(1) have "normalized (content z) \<noteq> normalized (content y)"
      by (metis (mono_tags, lifting) distinct.simps(2) image_eqI list.simps(9) set_map)
    with z Cons.prems(2) show "normalized (content z) \<notin> insert (normalized (content y)) seen"
      by simp
  qed
  have "dedup_from (insert (normalized (content y)) seen) ys = ys"
    using Cons.prems(1) fresh by (intro Cons.IH) simp_all
  with Cons.prems show ?case by simp
qed

text \<open>
  Claim C9. The deduplication step is idempotent: applied to its own output it returns
  that output unchanged, for every list of sections.
\<close>

theorem deduplicate_idempotent:
  "deduplicate_sections (deduplicate_sections xs) = deduplicate_sections xs"
  unfolding deduplicate_sections_eq
  by (rule dedup_from_fixed) (simp_all add: dedup_from_distinct)

theorem deduplicate_idempotent_witness:
  "deduplicate_sections (deduplicate_sections
      [implicit_sec ''a.pdf'' 1 ''Intro'' ''Some  Text'', implicit_sec ''a.pdf'' 2 ''Intro'' ''some text''])
   = deduplicate_sections
      [implicit_sec ''a.pdf'' 1 ''Intro'' ''Some  Text'', implicit_sec ''a.pdf'' 2 ''Intro'' ''some text'']"
  by (rule deduplicate_idempotent)

subsection \<open>Validity of the emitted sections\<close>

lemma length_strip_le: "length (strip s) \<le> length s"
proof -
  have "length (strip s) \<le> length (dropWhile is_space s)"
    by (simp add: strip_def length_dropWhile_le del: rev_rev_ident)
       (metis length_dropWhile_le length_rev)
  also have "\<dots> \<le> length s" by (rule length_dropWhile_le)
  finally show ?thesis .
qed

lemma is_valid_section_bounds:
  assumes "is_valid_section c"
  shows "50 \<le> length c" and "length c \<le> 2000"
    and "0.3 * real (length (split_ws c)) \<le> real (card (set (split_ws c)))"
proof -
  from assms have strip: "50 \<le> length (strip c)" and len: "length c \<le> 2000"
    and ratio: "\<not> real (card (set (split_ws c))) < real (length (split_ws c)) * 0.3"
    by (auto simp: is_valid_section_def min_section_length_def max_section_length_def
        Let_def split: if_splits)
  from strip length_strip_le [of c] show "50 \<le> length c" by linarith
  from len show "length c \<le> 2000" .
  from ratio show "0.3 * real (length (split_ws c)) \<le> real (card (set (split_ws c)))"
    by (simp add: mult.commute)
qed

lemma explicit_sections_valid:
  "s \<in> set (explicit_sections filename pg) \<Longrightarrow> is_valid_section (content s)"
  by (auto simp: explicit_sections_def Let_def split: if_splits)

lemma flush_group_valid:
  assumes "\<forall>s\<in>set sections. is_valid_section (content s)"
  shows "\<forall>s\<in>set (flush_group filename pn sections cur t). is_valid_section (content s)"
  using assms
  by (auto simp: flush_group_def implicit_sec_def Let_def split: option.splits if_splits)

lemma implicit_step_valid:
  assumes "\<forall>s\<in>set (fst st). is_valid_section (content s)"
  shows "\<forall>s\<in>set (fst (implicit_step filename pn st p)). is_valid_section (content s)"
proof -
  obtain sections cur t where st: "st = (sections, cur, t)" by (cases st)
  with assms flush_group_valid [of sections filename pn cur t] show ?thesis
    by (simp add: implicit_step_def Let_def)
qed

lemma implicit_foldl_valid:
  "\<forall>s\<in>set (fst st). is_valid_section (content s)
   \<Longrightarrow> \<forall>s\<in>set (fst (foldl (implicit_step filename pn) st ps)). is_valid_section (content s)"
proof (induction ps arbitrary: st)
  case Nil
  then show ?case by simp
next
  case (Cons p ps)
  from Cons.prems have "\<forall>s\<in>set (fst (implicit_step filename pn st p)). is_valid_section (content s)"
    by (rule implicit_step_valid)
  then show ?case using Cons.IH by simp
qed

lemma final_flush_valid:
  assumes "\<forall>s\<in>set (fst st). is_valid_section (content s)"
  shows "\<forall>s\<in>set (final_flush filename pn st). is_valid_section (content s)"
proof -
  obtain sections cur t where st: "st = (sections, cur, t)" by (cases st)
  with assms show ?thesis
    by (auto simp: final_flush_def implicit_sec_def Let_def split: if_splits)
qed

lemma implicit_sections_valid:
  "s \<in> set (extract_implicit_sections page_text pn filename) \<Longrightarrow> is_valid_section (content s)"
proof -
  have "\<forall>s\<in>set (fst (implicit_loop filename pn (paragraphs_of page_text))).
          is_valid_section (content s)"
    unfolding implicit_loop_def by (rule implicit_foldl_valid) simp
  then have "\<forall>s\<in>set (extract_implicit_sections page_text pn filename).
          is_valid_section (content s)"
    unfolding extract_implicit_sections_def by (rule final_flush_valid)
  then show "s \<in> set (extract_implicit_sections page_text pn filename)
             \<Longrightarrow> is_valid_section (content s)"
    by blast
qed

lemma extract_sections_valid:
  assumes "s \<in> set (extract_sections doc filename)"
  shows "is_valid_section (content s)"
proof -
  from assms have "s \<in> set (concat (map (page_sections filename) (pages doc)))"
    using dedup_from_subset [of "{}" "concat (map (page_sections filename) (pages doc))"]
    by (simp add: extract_sections_def rank_sections_by_quality_def sort_desc_set
        deduplicate_sections_eq subset_iff)
  then obtain pg where "s \<in> set (page_sections filename pg)" by auto
  then show ?thesis
    by (auto simp: page_sections_def dest: explicit_sections_valid implicit_sections_valid)
qed

text \<open>
  Claim C2. Every section that \<^const>\<open>extract_sections\<close> returns, explicit or implicit,
  has a content of 50 to 2000 characters whose number of distinct words is at least 0.3
  times its number of words; a candidate that fails this test is never returned.
\<close>

theorem emitted_sections_valid:
  assumes "s \<in> set (extract_sections doc filename)"
  shows "50 \<le> length (content s) \<and> length (content s) \<le> 2000
         \<and> 0.3 * real (length (split_ws (content s)))
             \<le> real (card (set (split_ws (content s))))"
  using is_valid_section_bounds [OF extract_sections_valid [OF assms]] by simp

text \<open>The witness is a one-page document with the detected header \<open>Overview\<close>.\<close>

theorem emitted_sections_valid_witness:
  "\<exists>s. s \<in> set (extract_sections
              \<lparr>total_pages = 1,
               pages = [\<lparr>pg_number = 1,
                         pg_text = ''Overview'' @ [nl]
                           @ ''The kitchen prepares fresh vegetarian meals for every guest.''
                           @ [nl] @ ''Menus change with the seasons.'' @ [nl],
                         pg_sections = [\<lparr>h_title = ''Overview'', h_page = 1\<rparr>]\<rparr>],
               full_text = []\<rparr> ''menu.pdf'')
       \<and> 50 \<le> length (content s) \<and> length (content s) \<le> 2000
       \<and> 0.3 * real (length (split_ws (content s)))
             \<le> real (card (set (split_ws (content s))))"
proof -
  let ?doc = "\<lparr>total_pages = 1,
               pages = [\<lparr>pg_number = 1,
                         pg_text = ''Overview'' @ [nl]
                           @ ''The kitchen prepares fresh vegetarian meals for every guest.''
                           @ [nl] @ ''Menus change with the seasons.'' @ [nl],
                         pg_sections = [\<lparr>h_title = ''Overview'', h_page = 1\<rparr>]\<rparr>],
               full_text = []\<rparr>"
  have run: "extract_sections ?doc ''menu.pdf'' =
      [\<lparr>document = ''menu.pdf'', title = ''Overview'',
        content = ''The kitchen prepares fresh vegetarian meals for every guest. Menus change with the seasons.'',
        page_number = 1, sec_type = ''explicit'', relevance_score = None\<rparr>]"
    by code_simp
  then have mem: "\<lparr>document = ''menu.pdf'', title = ''Overview'',
        content = ''The kitchen prepares fresh vegetarian meals for every guest. Menus change with the seasons.'',
        page_number = 1, sec_type = ''explicit'', relevance_score = None\<rparr>
        \<in> set (extract_sections ?doc ''menu.pdf'')"
    by simp
  from emitted_sections_valid [OF mem] mem show ?thesis by blast
qed

subsection \<open>Subsections of a section\<close>

lemma map_filter_snd:
  "map (\<lambda>p. g (snd p)) (filter (\<lambda>p. P (snd p)) ps) = map g (filter P (map snd ps))"
  by (induction ps) auto

lemma scored_subsections_content:
  "map sub_content (scored_subsections s pc job) =
     map strip (filter (\<lambda>c. 100 \<le> length (strip c)) (split_into_subsections (content s)))"
proof -
  let ?cs = "split_into_subsections (content s)"
  have "map sub_content (scored_subsections s pc job)
        = map (\<lambda>p. strip (snd p)) (filter (\<lambda>p. 100 \<le> length (strip (snd p)))
             (zip [0 ..< length ?cs] ?cs))"
    by (simp add: scored_subsections_def Let_def min_subsection_length_def comp_def
        case_prod_unfold)
  also have "\<dots> = map strip (filter (\<lambda>c. 100 \<le> length (strip c))
                       (map snd (zip [0 ..< length ?cs] ?cs)))"
    by (rule map_filter_snd)
  finally show ?thesis by simp
qed

text \<open>
  Claim C7. For every parent section \<^const>\<open>extract_subsections\<close> returns at most three
  subsections, each with a trimmed content of at least 100 characters, in descending order
  of relevance score. The scored candidates are the split pieces whose trimmed length is at
  least 100; the result holds three of them, or all of them when there are fewer, and it is
  the beginning of an arrangement of all scored candidates by descending score.
\<close>

theorem subsections_top_three:
  "length (extract_subsections s pc job) \<le> 3
   \<and> length (extract_subsections s pc job) = min 3 (length (scored_subsections s pc job))
   \<and> map sub_content (scored_subsections s pc job) =
       map strip (filter (\<lambda>c. 100 \<le> length (strip c)) (split_into_subsections (content s)))
   \<and> (\<forall>x\<in>set (extract_subsections s pc job). 100 \<le> length (sub_content x))
   \<and> sorted_wrt (\<lambda>a b. sub_relevance_score b \<le> sub_relevance_score a)
        (extract_subsections s pc job)
   \<and> (\<exists>rest. mset (extract_subsections s pc job @ rest) = mset (scored_subsections s pc job)
         \<and> sorted_wrt (\<lambda>a b. sub_relevance_score b \<le> sub_relevance_score a)
              (extract_subsections s pc job @ rest))"
proof -
  let ?scored = "scored_subsections s pc job"
  let ?sorted = "sort_desc sub_relevance_score ?scored"
  have res: "extract_subsections s pc job = take 3 ?sorted"
    by (simp add: extract_subsections_def max_subsections_per_section_def)
  have len: "length (take 3 ?sorted) \<le> 3" by simp
  have exact: "length (take 3 ?sorted) = min 3 (length ?scored)"
    by (simp add: sort_desc_def min.commute)
  note scored = scored_subsections_content [of s pc job]
  have "\<forall>x\<in>set ?scored. 100 \<le> length (sub_content x)"
    by (auto simp: scored_subsections_def Let_def min_subsection_length_def)
  then have long: "\<forall>x\<in>set (take 3 ?sorted). 100 \<le> length (sub_content x)"
    using set_take_subset [of 3 ?sorted] by (auto simp: sort_desc_set)
  have all_sorted: "sorted_wrt (\<lambda>a b. sub_relevance_score b \<le> sub_relevance_score a) ?sorted"
    by (rule sort_desc_sorted)
  then have "sorted_wrt (\<lambda>a b. sub_relevance_score b \<le> sub_relevance_score a)
               (take 3 ?sorted @ drop 3 ?sorted)"
    by simp
  moreover have "mset (take 3 ?sorted @ drop 3 ?sorted) = mset ?scored"
    by (simp add: sort_desc_mset)
  ultimately have top: "\<exists>rest. mset (take 3 ?sorted @ rest) = mset ?scored
      \<and> sorted_wrt (\<lambda>a b. sub_relevance_score b \<le> sub_relevance_score a)
           (take 3 ?sorted @ rest)"
    by blast
  from all_sorted have "sorted_wrt (\<lambda>a b. sub_relevance_score b \<le> sub_relevance_score a)
                          (take 3 ?sorted)"
    by (rule sorted_wrt_take)
  with len exact scored long top show ?thesis unfolding res by blast
qed


text \<open>The witness: four list items are scored, three are returned.\<close>

theorem subsections_top_three_witness:
  "length (scored_subsections buffet_notes buffet_profile buffet_job) = 4
   \<and> length (extract_subsections buffet_notes buffet_profile buffet_job) = 3
   \<and> (\<exists>x. x \<in> set (extract_subsections buffet_notes buffet_profile buffet_job)
          \<and> 100 \<le> length (sub_content x))
   \<and> sorted_wrt (\<lambda>a b. sub_relevance_score b \<le> sub_relevance_score a)
        (extract_subsections buffet_notes buffet_profile buffet_job)"
proof -
  have "map (\<lambda>c. length (strip c)) (split_into_subsections (content buffet_notes))
        = [21, 110, 108, 105, 107]"
    by code_simp
  then have "length (filter (\<lambda>n. 100 \<le> n)
               (map (\<lambda>c. length (strip c)) (split_into_subsections (content buffet_notes)))) = 4"
    by simp
  then have "length (map sub_content (scored_subsections buffet_notes buffet_profile buffet_job))
             = 4"
    unfolding scored_subsections_content by (simp add: filter_map comp_def)
  then have four: "length (scored_subsections buffet_notes buffet_profile buffet_job) = 4"
    by simp
  then have three: "length (extract_subsections buffet_notes buffet_profile buffet_job) = 3"
    by (simp add: extract_subsections_def max_subsections_per_section_def sort_desc_def)
  then obtain x where "x \<in> set (extract_subsections buffet_notes buffet_profile buffet_job)"
    by (cases "extract_subsections buffet_notes buffet_profile buffet_job") auto
  with three four subsections_top_three [of buffet_notes buffet_profile buffet_job]
  show ?thesis
    by blast
qed

subsection \<open>The buffet scenario\<close>

lemma str_in_sublist: "str_in sub s \<longleftrightarrow> sublist sub s"
  by (induction s) (auto simp: sublist_Cons_right)

lemma str_in_lower: "str_in w c \<Longrightarrow> str_in (lower w) (lower c)"
proof -
  assume "str_in w c"
  then obtain ps ss where "c = ps @ w @ ss"
    by (auto simp: str_in_sublist sublist_def)
  then have "lower c = lower ps @ lower w @ lower ss"
    by (simp add: lower_def)
  then show ?thesis
    unfolding str_in_sublist sublist_def by blast
qed

lemma buffet_job_terms:
  "str_in ''buffet'' (lower buffet_job)" "str_in ''vegetarian'' (lower buffet_job)"
  "str_in ''corporate'' (lower buffet_job)" "\<not> str_in ''college'' (lower buffet_job)"
  by code_simp+

lemma lower_terms: "lower ''vegetarian'' = ''vegetarian''" "lower ''buffet'' = ''buffet''"
  by code_simp+

lemma buffet_persona_type: "identify_persona_type (lower ''Food Contractor'') = ''contractor''"
  by code_simp

lemma buffet_requirements:
  "extract_requirements (lower buffet_job) =
     \<lparr>dietary = [''vegetarian''], size_req = Some 50, duration = None,
      special_needs = [''professional'', ''buffet-style'']\<rparr>"
  by code_simp

text \<open>
  Claim C8. For the persona \<open>Food Contractor\<close> and the job of \<^const>\<open>buffet_job\<close>: the
  profile's persona type is \<open>contractor\<close>, its dietary requirements include
  \<open>vegetarian\<close>, its size requirement is 50, and for every section whose content contains
  the words \<open>vegetarian\<close> and \<open>buffet\<close> the job-term stage multiplies the score by 1.3
  twice (and by 1.2 once more when a corporate term occurs), before the title boost and
  the cap at 2.
\<close>

theorem buffet_scenario:
  "persona_type buffet_profile = ''contractor''
   \<and> ''vegetarian'' \<in> set (dietary (reqs buffet_profile))
   \<and> size_req (reqs buffet_profile) = Some 50
   \<and> (str_in ''vegetarian'' (content s) \<and> str_in ''buffet'' (content s) \<longrightarrow>
        job_boost buffet_job (lower (content s)) score =
          (if any_in [''professional'', ''business'', ''corporate''] (lower (content s))
           then score * 1.3 * 1.3 * 1.2 else score * 1.3 * 1.3)
        \<and> apply_persona_boosting s base buffet_profile buffet_job =
            min (title_boost buffet_profile s
                   (job_boost buffet_job (lower (content s))
                      (persona_boost buffet_profile (lower (content s)) base))) 2)"
proof -
  have profile: "persona_type buffet_profile = ''contractor''"
    "''vegetarian'' \<in> set (dietary (reqs buffet_profile))"
    "size_req (reqs buffet_profile) = Some 50"
    by (simp_all add: buffet_profile_def create_persona_profile_def Let_def
        buffet_persona_type buffet_requirements)
  have boost: "job_boost buffet_job (lower (content s)) score =
          (if any_in [''professional'', ''business'', ''corporate''] (lower (content s))
           then score * 1.3 * 1.3 * 1.2 else score * 1.3 * 1.3)"
    if "str_in ''vegetarian'' (content s)" and "str_in ''buffet'' (content s)"
  proof -
    from that have "str_in ''vegetarian'' (lower (content s))"
      and "str_in ''buffet'' (lower (content s))"
      using str_in_lower [of "''vegetarian''" "content s"]
        str_in_lower [of "''buffet''" "content s"]
      by (simp_all add: lower_terms)
    then show ?thesis
      by (simp add: job_boost_def Let_def buffet_job_terms)
  qed
  have "apply_persona_boosting s base buffet_profile buffet_job =
            min (title_boost buffet_profile s
                   (job_boost buffet_job (lower (content s))
                      (persona_boost buffet_profile (lower (content s)) base))) 2"
    by (simp add: apply_persona_boosting_def Let_def)
  with profile boost show ?thesis by blast
qed

theorem buffet_scenario_witness:
  "str_in ''vegetarian'' ''A vegetarian buffet with salads''
   \<and> str_in ''buffet'' ''A vegetarian buffet with salads''
   \<and> job_boost buffet_job (lower ''A vegetarian buffet with salads'') 1 = 1.69"
proof -
  let ?s = "implicit_sec ''menu.pdf'' 1 ''Menu'' ''A vegetarian buffet with salads''"
  have c: "content ?s = ''A vegetarian buffet with salads''"
    by (simp add: implicit_sec_def)
  have words: "str_in ''vegetarian'' ''A vegetarian buffet with salads''"
    "str_in ''buffet'' ''A vegetarian buffet with salads''"
    by code_simp+
  have plain: "\<not> any_in [''professional'', ''business'', ''corporate'']
                   (lower ''A vegetarian buffet with salads'')"
    by code_simp
  from buffet_scenario [of ?s 1 0] words plain show ?thesis
    unfolding c by simp
qed

subsection \<open>The two header predicates\<close>

text \<open>
  The segmenter's own predicate \<^const>\<open>looks_like_header\<close> has no fallback beside its four
  patterns: it rejects the fully capitalised line \<open>CHAPTER 1\<close> and the title-cased line
  \<open>Part 2 Overview\<close>, both short, without a trailing period and without a colon.
\<close>

theorem looks_like_header_rejects_caps_and_title:
  "(length ''CHAPTER 1'' = 9 \<and> isupper ''CHAPTER 1'' \<and> length (split_ws ''CHAPTER 1'') \<le> 8
      \<and> \<not> endswith ''CHAPTER 1'' ''.'' \<and> \<not> str_in '':'' ''CHAPTER 1''
      \<and> \<not> looks_like_header ''CHAPTER 1'')
   \<and> (length ''Part 2 Overview'' = 15 \<and> istitle ''Part 2 Overview''
      \<and> length (split_ws ''Part 2 Overview'') \<le> 10 \<and> \<not> endswith ''Part 2 Overview'' ''.''
      \<and> count_list ''Part 2 Overview'' CHR '':'' \<le> 1
      \<and> \<not> looks_like_header ''Part 2 Overview'')"
  by code_simp

text \<open>
  Claim C5, amended. The fallback belongs to the header predicate of the PDF collaborator,
  \<^const>\<open>is_section_header\<close>: it accepts every line whose stripped text has 3 to 100
  characters and no trailing period and is either fully capitalised with at most 8 words and
  no colon, or title-cased with at most 10 words and at most one colon, whether or not a
  pattern matches. The segmenter's \<^const>\<open>looks_like_header\<close> accepts a line only when one of
  its four patterns matches.
\<close>

theorem is_section_header_accepts:
  assumes "3 \<le> length (strip t)" and "length (strip t) \<le> 100"
      and "\<not> endswith (strip t) ''.''"
  shows "(isupper (strip t) \<and> length (split_ws (strip t)) \<le> 8 \<and> \<not> str_in '':'' (strip t)
            \<longrightarrow> is_section_header t)
       \<and> (istitle (strip t) \<and> length (split_ws (strip t)) \<le> 10
            \<and> count_list (strip t) CHR '':'' \<le> 1 \<longrightarrow> is_section_header t)
       \<and> (looks_like_header t
            \<longrightarrow> list_ex (\<lambda>pattern. re_match pattern (strip t)) header_patterns)"
  using assms by (simp add: is_section_header_def looks_like_header_def Let_def split: if_splits)

theorem is_section_header_accepts_witness:
  "is_section_header ''CHAPTER 1'' \<and> is_section_header ''Part 2 Overview''
   \<and> looks_like_header ''Summary''
   \<and> list_ex (\<lambda>pattern. re_match pattern (strip ''Summary'')) header_patterns
   \<and> \<not> list_ex (\<lambda>pattern. re_match pattern ''CHAPTER 1'') section_patterns
   \<and> \<not> list_ex (\<lambda>pattern. re_match pattern ''Part 2 Overview'') section_patterns"
proof -
  have caps: "3 \<le> length (strip ''CHAPTER 1'')" "length (strip ''CHAPTER 1'') \<le> 100"
    "\<not> endswith (strip ''CHAPTER 1'') ''.''" "isupper (strip ''CHAPTER 1'')"
    "length (split_ws (strip ''CHAPTER 1'')) \<le> 8" "\<not> str_in '':'' (strip ''CHAPTER 1'')"
    by code_simp+
  have ttl: "3 \<le> length (strip ''Part 2 Overview'')" "length (strip ''Part 2 Overview'') \<le> 100"
    "\<not> endswith (strip ''Part 2 Overview'') ''.''" "istitle (strip ''Part 2 Overview'')"
    "length (split_ws (strip ''Part 2 Overview'')) \<le> 10"
    "count_list (strip ''Part 2 Overview'') CHR '':'' \<le> 1"
    by code_simp+
  have none: "\<not> list_ex (\<lambda>pattern. re_match pattern ''CHAPTER 1'') section_patterns"
    "\<not> list_ex (\<lambda>pattern. re_match pattern ''Part 2 Overview'') section_patterns"
    by code_simp+
  have summary: "3 \<le> length (strip ''Summary'')" "length (strip ''Summary'') \<le> 100"
    "\<not> endswith (strip ''Summary'') ''.''" "looks_like_header ''Summary''"
    by code_simp+
  from is_section_header_accepts [OF caps(1-3)] caps(4-6)
       is_section_header_accepts [OF ttl(1-3)] ttl(4-6) none
       is_section_header_accepts [OF summary(1-3)] summary(4)
  show ?thesis by blast
qed

subsection \<open>Content of an explicit section\<close>

lemma looks_like_header_nonblank: "looks_like_header (strip l) \<Longrightarrow> strip l \<noteq> []"
proof
  assume h: "looks_like_header (strip l)" and e: "strip l = []"
  have "strip [] = []" by (simp add: strip_def)
  with h e show False by (simp add: looks_like_header_def)
qed

lemma nonblank_lines_Cons:
  "nonblank_lines (l # ls) = (if strip l \<noteq> [] then [strip l] else []) @ nonblank_lines ls"
  by (simp add: nonblank_lines_def)

lemma collect_content_run:
  "\<forall>i<length body. \<not> (looks_like_header (strip (body ! i))
                          \<and> 3 < length acc + length (nonblank_lines (take i body)))
   \<Longrightarrow> collect_content acc (body @ later) = collect_content (acc @ nonblank_lines body) later"
proof (induction body arbitrary: acc)
  case Nil
  then show ?case by (simp add: nonblank_lines_def)
next
  case (Cons l ls)
  let ?acc = "acc @ (if strip l \<noteq> [] then [strip l] else [])"
  from Cons.prems have first: "\<not> (looks_like_header (strip l) \<and> 3 < length acc)"
    by (auto simp: nonblank_lines_def)
  have "\<forall>i<length ls. \<not> (looks_like_header (strip (ls ! i))
                          \<and> 3 < length ?acc + length (nonblank_lines (take i ls)))"
  proof (intro allI impI)
    fix i assume "i < length ls"
    then have "Suc i < length (l # ls)" by simp
    with Cons.prems have "\<not> (looks_like_header (strip ((l # ls) ! Suc i))
        \<and> 3 < length acc + length (nonblank_lines (take (Suc i) (l # ls))))"
      by blast
    then show "\<not> (looks_like_header (strip (ls ! i))
                  \<and> 3 < length ?acc + length (nonblank_lines (take i ls)))"
      by (cases "strip l = []") (auto simp: nonblank_lines_Cons)
  qed
  from Cons.IH [OF this] have step: "collect_content ?acc (ls @ later)
      = collect_content (?acc @ nonblank_lines ls) later" .
  show ?case
  proof (cases "strip l = []")
    case True
    with first step show ?thesis by (auto simp: Let_def nonblank_lines_Cons)
  next
    case False
    with first step show ?thesis by (auto simp: Let_def nonblank_lines_Cons)
  qed
qed

text \<open>
  Read with the bound \<open>at least 3\<close>, the stop rule fails on \<^const>\<open>overview_text\<close>: the
  header-like line \<open>Summary\<close> arrives when exactly three content lines are accumulated, and
  it is appended.
\<close>

theorem content_stop_counterexample:
  "looks_like_header ''Summary''
   \<and> length [''alpha one'', ''beta two'', ''gamma three''] = 3
   \<and> collect_content [''alpha one'', ''beta two'', ''gamma three''] [''Summary'', ''delta four'']
       = [''alpha one'', ''beta two'', ''gamma three'', ''Summary'', ''delta four'']
   \<and> extract_section_content overview_text ''Overview'' 1
       = ''alpha one beta two gamma three Summary delta four''"
  by code_simp

text \<open>
  Claim C4, amended. After the line that contains the title, the content is made of the
  stripped non-blank lines, joined by spaces, up to the first header-like line that arrives
  when more than 3 content lines (at least 4) are accumulated, or up to the end of the page.
  Let \<open>body\<close> be a run of lines after the title none of which is such a stopping line. If
  the page ends with \<open>body\<close>, the content is all of it. If a header-like line \<open>h\<close> follows
  \<open>body\<close>, the section ends there when \<open>body\<close> holds more than 3 content lines; with 3
  or fewer, \<open>h\<close> is appended and the accumulation goes on.
\<close>

theorem explicit_content_stop:
  assumes start: "find_section_start section_title 0 (split_str [nl] page_text) = Some i"
      and run: "\<forall>k<length body. \<not> (looks_like_header (strip (body ! k))
                                    \<and> 3 < length (nonblank_lines (take k body)))"
  shows "(drop (i + 1) (split_str [nl] page_text) = body \<longrightarrow>
            extract_section_content page_text section_title pn = join '' '' (nonblank_lines body))
       \<and> (drop (i + 1) (split_str [nl] page_text) = body @ h # rest \<and> looks_like_header (strip h)
            \<longrightarrow> extract_section_content page_text section_title pn =
                  (if 3 < length (nonblank_lines body) then join '' '' (nonblank_lines body)
                   else join '' '' (collect_content (nonblank_lines body @ [strip h]) rest)))"
proof (intro conjI impI)
  from run have run': "\<forall>k<length body. \<not> (looks_like_header (strip (body ! k))
      \<and> 3 < length ([] :: string list) + length (nonblank_lines (take k body)))"
    by simp
  have prefix_run: "collect_content [] (body @ later) = collect_content (nonblank_lines body) later"
    for later
    using collect_content_run [OF run', of later] by simp
  {
    assume "drop (i + 1) (split_str [nl] page_text) = body"
    moreover have "collect_content [] body = nonblank_lines body"
      using prefix_run [of "[]"] by simp
    ultimately show "extract_section_content page_text section_title pn
                     = join '' '' (nonblank_lines body)"
      using start by (simp add: extract_section_content_def Let_def)
  }
  {
    assume a: "drop (i + 1) (split_str [nl] page_text) = body @ h # rest
               \<and> looks_like_header (strip h)"
    then have h: "looks_like_header (strip h)" and nb: "strip h \<noteq> []"
      by (simp_all add: looks_like_header_nonblank)
    have "collect_content [] (body @ h # rest) = collect_content (nonblank_lines body) (h # rest)"
      by (rule prefix_run)
    also have "\<dots> = (if 3 < length (nonblank_lines body) then nonblank_lines body
                      else collect_content (nonblank_lines body @ [strip h]) rest)"
      using h nb by (simp add: Let_def)
    finally show "extract_section_content page_text section_title pn =
                    (if 3 < length (nonblank_lines body) then join '' '' (nonblank_lines body)
                     else join '' '' (collect_content (nonblank_lines body @ [strip h]) rest))"
      using start a by (simp add: extract_section_content_def Let_def)
  }
qed

text \<open>On \<^const>\<open>overview_text\<close> the line \<open>Summary\<close> comes after three content lines and is
  kept; on \<^const>\<open>overview_text4\<close> it comes after four and ends the section.\<close>

lemma all_below_list_all: "(\<forall>k<n. P k) \<longleftrightarrow> list_all P [0 ..< n]"
  by (auto simp: list_all_iff)

theorem explicit_content_stop_witness:
  "extract_section_content overview_text ''Overview'' 1
       = ''alpha one beta two gamma three Summary delta four''
   \<and> extract_section_content overview_text4 ''Overview'' 1
       = ''alpha one beta two gamma three delta four''"
proof -
  let ?all = "[''alpha one'', ''beta two'', ''gamma three'', ''Summary'', ''delta four'', []]"
  let ?three = "[''alpha one'', ''beta two'', ''gamma three'']"
  let ?four = "[''alpha one'', ''beta two'', ''gamma three'', ''delta four'']"
  have s1: "find_section_start ''Overview'' 0 (split_str [nl] overview_text) = Some 0"
    and d1: "drop (0 + 1) (split_str [nl] overview_text) = ?all"
    and d1': "drop (0 + 1) (split_str [nl] overview_text) = ?three @ ''Summary'' # [''delta four'', []]"
    and r1: "join '' '' (nonblank_lines ?all) = ''alpha one beta two gamma three Summary delta four''"
    and h: "looks_like_header (strip ''Summary'')"
    and r1': "\<not> 3 < length (nonblank_lines ?three)"
      "join '' '' (collect_content (nonblank_lines ?three @ [strip ''Summary''])
         [''delta four'', []]) = ''alpha one beta two gamma three Summary delta four''"
    by code_simp+
  have b1: "\<forall>k<length ?all. \<not> (looks_like_header (strip (?all ! k))
                                \<and> 3 < length (nonblank_lines (take k ?all)))"
    unfolding all_below_list_all by code_simp
  have b1': "\<forall>k<length ?three. \<not> (looks_like_header (strip (?three ! k))
                                \<and> 3 < length (nonblank_lines (take k ?three)))"
    unfolding all_below_list_all by code_simp
  have s2: "find_section_start ''Overview'' 0 (split_str [nl] overview_text4) = Some 0"
    and d2: "drop (0 + 1) (split_str [nl] overview_text4)
             = ?four @ ''Summary'' # [''epsilon five'', []]"
    and r2: "3 < length (nonblank_lines ?four)"
      "join '' '' (nonblank_lines ?four) = ''alpha one beta two gamma three delta four''"
    by code_simp+
  have b2: "\<forall>k<length ?four. \<not> (looks_like_header (strip (?four ! k))
                                \<and> 3 < length (nonblank_lines (take k ?four)))"
    unfolding all_below_list_all by code_simp
  from explicit_content_stop [OF s1 b1, where pn = 1 and h = "[]" and rest = "[]"] d1 r1
  have w1: "extract_section_content overview_text ''Overview'' 1
            = ''alpha one beta two gamma three Summary delta four''"
    by simp
  from explicit_content_stop [OF s1 b1', where pn = 1 and h = "''Summary''"
         and rest = "[''delta four'', []]"] d1' h r1'
  have w1': "extract_section_content overview_text ''Overview'' 1
            = ''alpha one beta two gamma three Summary delta four''"
    by simp
  from explicit_content_stop [OF s2 b2, where pn = 1 and h = "''Summary''"
         and rest = "[''epsilon five'', []]"] d2 h r2
  have w2: "extract_section_content overview_text4 ''Overview'' 1
            = ''alpha one beta two gamma three delta four''"
    by simp
  from w1 w1' w2 show ?thesis by simp
qed

subsection \<open>Implicit sections\<close>

lemma implicit_plain_paragraphs:
  "\<forall>p\<in>set ps. \<not> looks_like_header (first_line_of p)
   \<Longrightarrow> foldl (implicit_step filename pn) (sections, cur, t) ps = (sections, cur @ ps, t)"
  by (induction ps arbitrary: cur) (simp_all add: implicit_step_def Let_def)

lemma implicit_first_paragraph:
  "implicit_step filename pn (sections, [], t) p = (sections, [p], t)"
  by (simp add: implicit_step_def Let_def)

lemma looks_like_header_title: "looks_like_header l \<Longrightarrow> l \<noteq> []"
proof
  assume h: "looks_like_header l" and e: "l = []"
  have "strip [] = []" by (simp add: strip_def)
  with h e show False by (simp add: looks_like_header_def)
qed

lemma implicit_open_run:
  assumes "\<forall>p\<in>set (if cur = [] then tl ps else ps). \<not> looks_like_header (first_line_of p)"
  shows "foldl (implicit_step filename pn) (sections, cur, t) ps = (sections, cur @ ps, t)"
proof (cases "cur = []")
  case False
  with assms show ?thesis by (simp add: implicit_plain_paragraphs)
next
  case True
  show ?thesis
  proof (cases ps)
    case Nil
    then show ?thesis by simp
  next
    case (Cons p0 rest)
    with True assms have "\<forall>p\<in>set rest. \<not> looks_like_header (first_line_of p)" by simp
    then have "foldl (implicit_step filename pn) (sections, [p0], t) rest
               = (sections, [p0] @ rest, t)"
      by (rule implicit_plain_paragraphs)
    with True Cons show ?thesis by (simp add: implicit_first_paragraph)
  qed
qed

lemma implicit_group_run:
  assumes "cur \<noteq> []" and "looks_like_header (first_line_of hp)"
      and "\<forall>p\<in>set (if opening_body hp = [] then tl body else body).
             \<not> looks_like_header (first_line_of p)"
  shows "foldl (implicit_step filename pn) (sections, cur, t) (hp # body)
         = (flush_group filename pn sections cur t, opening_body hp @ body,
            Some (first_line_of hp))"
proof -
  have "implicit_step filename pn (sections, cur, t) hp
        = (flush_group filename pn sections cur t, opening_body hp, Some (first_line_of hp))"
    using assms(1,2) by (simp add: implicit_step_def Let_def)
  then show ?thesis
    using implicit_open_run [OF assms(3), of filename pn
        "flush_group filename pn sections cur t" "Some (first_line_of hp)"]
    by simp
qed

lemma flush_group_titled:
  "looks_like_header ttl \<Longrightarrow> cur \<noteq> [] \<Longrightarrow>
   flush_group filename pn sections cur (Some ttl) =
     sections @ (if is_valid_section (join '' '' cur)
                 then [implicit_sec filename pn ttl (join '' '' cur)] else [])"
  by (auto simp: flush_group_def Let_def dest: looks_like_header_title)

lemma final_flush_titled:
  "looks_like_header ttl \<Longrightarrow>
   final_flush filename pn (sections, cur, Some ttl) =
     sections @ (if is_valid_section (join '' '' cur)
                 then [implicit_sec filename pn ttl (join '' '' cur)] else [])"
proof -
  assume h: "looks_like_header ttl"
  then have "ttl \<noteq> []" by (rule looks_like_header_title)
  moreover have "\<not> is_valid_section (join '' '' [])"
    by (simp add: is_valid_section_def)
  ultimately show ?thesis
    by (cases "cur = []")
       (simp_all add: final_flush_def truthy_title_def title_or_default_def Let_def)
qed

lemma implicit_groups_from:
  assumes "groups \<noteq> []" and "cur \<noteq> []"
      and "\<forall>(hp, body)\<in>set groups. looks_like_header (first_line_of hp)
             \<and> (\<forall>p\<in>set (if opening_body hp = [] then tl body else body).
                   \<not> looks_like_header (first_line_of p))"
      and "\<forall>(hp, body)\<in>set (butlast groups). opening_body hp @ body \<noteq> []"
  shows "final_flush filename pn
           (foldl (implicit_step filename pn) (sections, cur, t)
              (concat (map (\<lambda>(hp, body). hp # body) groups)))
         = flush_group filename pn sections cur t
           @ concat (map (\<lambda>(hp, body).
                 if is_valid_section (join '' '' (opening_body hp @ body))
                 then [implicit_sec filename pn (first_line_of hp)
                         (join '' '' (opening_body hp @ body))]
                 else []) groups)"
  using assms
proof (induction groups arbitrary: sections cur t)
  case Nil
  then show ?case by simp
next
  case (Cons g groups)
  obtain hp body where g: "g = (hp, body)" by (cases g)
  from Cons.prems(3) g have hp: "looks_like_header (first_line_of hp)"
    and body: "\<forall>p\<in>set (if opening_body hp = [] then tl body else body).
                 \<not> looks_like_header (first_line_of p)"
    by simp_all
  have run: "foldl (implicit_step filename pn) (sections, cur, t) (hp # body)
             = (flush_group filename pn sections cur t, opening_body hp @ body,
                Some (first_line_of hp))"
    using Cons.prems(2) hp body by (rule implicit_group_run)
  have split: "foldl (implicit_step filename pn) (sections, cur, t)
                 (concat (map (\<lambda>(hp, body). hp # body) (g # groups)))
               = foldl (implicit_step filename pn)
                   (flush_group filename pn sections cur t, opening_body hp @ body,
                    Some (first_line_of hp))
                   (concat (map (\<lambda>(hp, body). hp # body) groups))"
  proof -
    have "concat (map (\<lambda>(hp, body). hp # body) (g # groups))
          = (hp # body) @ concat (map (\<lambda>(hp, body). hp # body) groups)"
      by (simp add: g)
    then show ?thesis
      by (simp only: foldl_append run)
  qed
  show ?case
  proof (cases "groups = []")
    case True
    with g show ?thesis
      unfolding split by (simp add: final_flush_titled [OF hp])
  next
    case False
    with Cons.prems(4) g have nonempty: "opening_body hp @ body \<noteq> []" by simp
    from Cons.prems(3) have rest3: "\<forall>(hp, body)\<in>set groups. looks_like_header (first_line_of hp)
             \<and> (\<forall>p\<in>set (if opening_body hp = [] then tl body else body).
                   \<not> looks_like_header (first_line_of p))"
      by simp
    from Cons.prems(4) False have rest4:
      "\<forall>(hp, body)\<in>set (butlast groups). opening_body hp @ body \<noteq> []"
      by simp
    have "final_flush filename pn
           (foldl (implicit_step filename pn)
              (flush_group filename pn sections cur t, opening_body hp @ body,
               Some (first_line_of hp))
              (concat (map (\<lambda>(hp, body). hp # body) groups)))
         = flush_group filename pn (flush_group filename pn sections cur t)
             (opening_body hp @ body) (Some (first_line_of hp))
           @ concat (map (\<lambda>(hp, body).
                 if is_valid_section (join '' '' (opening_body hp @ body))
                 then [implicit_sec filename pn (first_line_of hp)
                         (join '' '' (opening_body hp @ body))]
                 else []) groups)"
      using False nonempty rest3 rest4 by (rule Cons.IH)
    with g show ?thesis
      unfolding split by (simp add: flush_group_titled [OF hp nonempty])
  qed
qed

text \<open>
  On \<^const>\<open>serving_page_text\<close> the paragraphs before the first section-opening header
  form a valid content, and no section is emitted for them.
\<close>

theorem implicit_groups_counterexample:
  "is_valid_section (join '' '' welcome_paragraphs)
   \<and> paragraphs_of serving_page_text = welcome_paragraphs @ [serving_paragraph, drinks_paragraph]
   \<and> extract_implicit_sections serving_page_text 1 ''menu.pdf'' =
       [implicit_sec ''menu.pdf'' 1 ''Serving''
          ''guests are served at long tables near the garden doors, with plates at both ends. drinks are placed on a separate table beside the entrance.'']"
  by code_simp

text \<open>
  Claim C3, amended. Take a page with at least one section-opening header: its paragraphs
  are a non-empty leading run \<open>pre\<close> (no header-like first line after its first
  paragraph) followed by groups, each made of a paragraph \<open>hp\<close> with a header-like first
  line and of the paragraphs \<open>body\<close> accumulated under it (none with a header-like first
  line, except that the first may be header-like when \<open>hp\<close> is the header line alone), every
  group but the last being non-empty. Then the extraction emits, in order, one section for
  each group whose content is valid, titled with the group's header line: a group is flushed
  when the next section-opening header arrives, and the last group is flushed at the end of
  the page without a following header. Nothing is emitted for \<open>pre\<close>, the content before
  the first section-opening header.
\<close>

theorem implicit_groups:
  assumes pars: "paragraphs_of page_text = pre @ concat (map (\<lambda>(hp, body). hp # body) groups)"
      and pre: "pre \<noteq> []"
      and pre_plain: "\<forall>p\<in>set (tl pre). \<not> looks_like_header (first_line_of p)"
      and groups: "groups \<noteq> []"
      and headers: "\<forall>(hp, body)\<in>set groups. looks_like_header (first_line_of hp)
             \<and> (\<forall>p\<in>set (if opening_body hp = [] then tl body else body).
                   \<not> looks_like_header (first_line_of p))"
      and nonempty: "\<forall>(hp, body)\<in>set (butlast groups). opening_body hp @ body \<noteq> []"
  shows "extract_implicit_sections page_text pn filename =
           concat (map (\<lambda>(hp, body).
                 if is_valid_section (join '' '' (opening_body hp @ body))
                 then [implicit_sec filename pn (first_line_of hp)
                         (join '' '' (opening_body hp @ body))]
                 else []) groups)"
proof -
  have "\<forall>p\<in>set (if ([] :: string list) = [] then tl pre else pre).
          \<not> looks_like_header (first_line_of p)"
    using pre_plain by simp
  then have after_pre: "foldl (implicit_step filename pn) ([], [], None) pre = ([], [] @ pre, None)"
    by (rule implicit_open_run)
  have "extract_implicit_sections page_text pn filename
        = final_flush filename pn
            (foldl (implicit_step filename pn) ([], pre, None)
               (concat (map (\<lambda>(hp, body). hp # body) groups)))"
    using after_pre by (simp add: extract_implicit_sections_def implicit_loop_def pars)
  also have "\<dots> = flush_group filename pn [] pre None
           @ concat (map (\<lambda>(hp, body).
                 if is_valid_section (join '' '' (opening_body hp @ body))
                 then [implicit_sec filename pn (first_line_of hp)
                         (join '' '' (opening_body hp @ body))]
                 else []) groups)"
    using groups pre headers nonempty by (rule implicit_groups_from)
  finally show ?thesis by (simp add: flush_group_def)
qed


text \<open>On \<^const>\<open>dessert_page_text\<close> the group \<open>Serving\<close> is flushed when \<open>Desserts\<close> arrives
  and the group \<open>Desserts\<close> at the end of the page.\<close>

theorem implicit_groups_witness:
  "extract_implicit_sections dessert_page_text 1 ''menu.pdf'' =
     [implicit_sec ''menu.pdf'' 1 ''Serving''
        ''guests are served at long tables near the garden doors, with plates at both ends. drinks are placed on a separate table beside the entrance.'',
      implicit_sec ''menu.pdf'' 1 ''Desserts'' cakes_paragraph]"
proof -
  let ?groups = "[(serving_paragraph, [drinks_paragraph]), (''Desserts'', [cakes_paragraph])]"
  have pars: "paragraphs_of dessert_page_text
              = welcome_paragraphs @ concat (map (\<lambda>(hp, body). hp # body) ?groups)"
    by code_simp
  have pre: "welcome_paragraphs \<noteq> []"
    and pre_plain: "\<forall>p\<in>set (tl welcome_paragraphs). \<not> looks_like_header (first_line_of p)"
    and groups: "?groups \<noteq> []"
    by code_simp+
  have headers: "\<forall>(hp, body)\<in>set ?groups. looks_like_header (first_line_of hp)
             \<and> (\<forall>p\<in>set (if opening_body hp = [] then tl body else body).
                   \<not> looks_like_header (first_line_of p))"
    by code_simp
  have nonempty: "\<forall>(hp, body)\<in>set (butlast ?groups). opening_body hp @ body \<noteq> []"
    by code_simp
  have sections: "concat (map (\<lambda>(hp, body).
                 if is_valid_section (join '' '' (opening_body hp @ body))
                 then [implicit_sec ''menu.pdf'' 1 (first_line_of hp)
                         (join '' '' (opening_body hp @ body))]
                 else []) ?groups)
     = [implicit_sec ''menu.pdf'' 1 ''Serving''
        ''guests are served at long tables near the garden doors, with plates at both ends. drinks are placed on a separate table beside the entrance.'',
      implicit_sec ''menu.pdf'' 1 ''Desserts'' cakes_paragraph]"
    by code_simp
  from implicit_groups [OF pars pre pre_plain groups headers nonempty,
      where pn = 1 and filename = "''menu.pdf''"] sections
  show ?thesis by simp
qed

end
